theory Spec2Isabelle
  imports Main
begin

section \<open>Errors, log records and column values\<close>

text \<open>
  The persistence core of the financial risk analytics engine is written against an
  object-relational mapper. Every exception that \<^verbatim>\<open>except Exception\<close> can catch is a
  value of \<open>exn\<close>; signals that are not subclasses of \<^verbatim>\<open>Exception\<close>
  (\<^verbatim>\<open>KeyboardInterrupt\<close>, \<^verbatim>\<open>SystemExit\<close>) are outside the model.
\<close>

datatype exn =
    OperationalError string
  | IntegrityError string
  | ObjectNotExecutableError string
  | Exception string

text \<open>\<^verbatim>\<open>str(e)\<close>: the message of an exception.\<close>

fun str :: "exn \<Rightarrow> string" where
  "str (OperationalError m) = m"
| "str (IntegrityError m) = m"
| "str (ObjectNotExecutableError m) = m"
| "str (Exception m) = m"

text \<open>The levels of the logger the source writes to.\<close>

datatype level = INFO | SUCCESS | WARNING | ERROR

text \<open>The enumerations of \<^verbatim>\<open>models.py\<close>.\<close>

datatype UserRole = ADMIN | ANALYST | VIEWER

datatype ModelType =
  LINEAR_REGRESSION | RIDGE_REGRESSION | LASSO_REGRESSION | ARIMA | SARIMA

datatype ForecastType = REVENUE | EXPENSE | CASH_FLOW

text \<open>
  A column value. A float is kept as the bit pattern of its double (it is only stored,
  never computed with), a timestamp as seconds of UTC, a JSON document as its text.
\<close>

datatype val =
    Null
  | Str string
  | Num int
  | Bool bool
  | Flt int
  | Time nat
  | Json string
  | Role UserRole
  | MType ModelType
  | FType ForecastType

text \<open>
  A row (equally: the attributes of a mapped object) lists its columns with their
  values; a column that is not listed has not been set.
\<close>

type_synonym row = "(string \<times> val) list"

definition cell :: "row \<Rightarrow> string \<Rightarrow> val" where
  "cell r c = (case map_of r c of None \<Rightarrow> Null | Some v \<Rightarrow> v)"


section \<open>The entity schema of \<^verbatim>\<open>models.py\<close>\<close>

text \<open>The seven mapped classes, under the names the source gives them.\<close>

datatype entity =
  User | DataUpload | TimeSeriesData | TrainedModel | Forecast | RiskMetrics | KPIReport

fun tablename :: "entity \<Rightarrow> string" where
  "tablename User = ''users''"
| "tablename DataUpload = ''data_uploads''"
| "tablename TimeSeriesData = ''timeseries_data''"
| "tablename TrainedModel = ''trained_models''"
| "tablename Forecast = ''forecasts''"
| "tablename RiskMetrics = ''risk_metrics''"
| "tablename KPIReport = ''kpi_reports''"

datatype coltype =
    String nat
  | Integer
  | Float
  | DateTime
  | Boolean
  | Text
  | JSON
  | SQLEnum string

text \<open>
  The \<^verbatim>\<open>ondelete\<close> argument of a \<^verbatim>\<open>ForeignKey\<close>; the source only ever writes
  \<^verbatim>\<open>"CASCADE"\<close>. A foreign key is the referenced entity (always its \<^verbatim>\<open>id\<close>) and the
  action, \<open>None\<close> when \<^verbatim>\<open>ondelete\<close> is not given.
\<close>

datatype ondelete = CASCADE

text \<open>
  The \<^verbatim>\<open>default\<close> argument of a column: a constant, \<^verbatim>\<open>lambda: str(uuid.uuid4())\<close>,
  or \<^verbatim>\<open>datetime.utcnow\<close>.
\<close>

datatype dflt = Const val | Uuid4 | Utcnow

record column =
  col_name :: string
  col_type :: coltype
  col_primary_key :: bool
  col_foreign_key :: "(entity \<times> ondelete option) option"
  col_unique :: bool
  col_nullable :: bool
  col_index :: bool
  col_default :: "dflt option"

text \<open>\<^verbatim>\<open>Column(name, type)\<close> with every keyword argument at its default.\<close>

definition Column :: "string \<Rightarrow> coltype \<Rightarrow> column" where
  "Column n t =
     \<lparr>col_name = n, col_type = t, col_primary_key = False, col_foreign_key = None,
      col_unique = False, col_nullable = True, col_index = False, col_default = None\<rparr>"

text \<open>
  The \<^verbatim>\<open>id\<close> column every class declares:
  \<^verbatim>\<open>Column(String(36), primary_key=True, default=lambda: str(uuid.uuid4()))\<close>.
  A primary key column is not nullable.
\<close>

definition id_column :: column where
  "id_column =
     (Column ''id'' (String 36))
       \<lparr>col_primary_key := True, col_nullable := False, col_default := Some Uuid4\<rparr>"

text \<open>
  \<^verbatim>\<open>Column(String(36), ForeignKey("<parent>.id", ondelete="CASCADE"), nullable=False)\<close>.
\<close>

definition fk_column :: "string \<Rightarrow> entity \<Rightarrow> column" where
  "fk_column n parent =
     (Column n (String 36))
       \<lparr>col_foreign_key := Some (parent, Some CASCADE), col_nullable := False\<rparr>"

definition created_at_column :: column where
  "created_at_column =
     (Column ''created_at'' DateTime)\<lparr>col_default := Some Utcnow, col_nullable := False\<rparr>"

definition updated_at_column :: column where
  "updated_at_column = (Column ''updated_at'' DateTime)\<lparr>col_default := Some Utcnow\<rparr>"

definition required :: "string \<Rightarrow> coltype \<Rightarrow> column" where
  "required n t = (Column n t)\<lparr>col_nullable := False\<rparr>"

fun columns :: "entity \<Rightarrow> column list" where
  "columns User =
     [id_column,
      (Column ''username'' (String 50))
        \<lparr>col_unique := True, col_nullable := False, col_index := True\<rparr>,
      (Column ''email'' (String 100))
        \<lparr>col_unique := True, col_nullable := False, col_index := True\<rparr>,
      required ''hashed_password'' (String 255),
      Column ''full_name'' (String 100),
      (Column ''role'' (SQLEnum ''UserRole''))
        \<lparr>col_default := Some (Const (Role VIEWER)), col_nullable := False\<rparr>,
      (Column ''is_active'' Boolean)
        \<lparr>col_default := Some (Const (Bool True)), col_nullable := False\<rparr>,
      created_at_column,
      updated_at_column]"
| "columns DataUpload =
     [id_column,
      fk_column ''user_id'' User,
      required ''filename'' (String 255),
      required ''data_type'' (String 50),
      required ''row_count'' Integer,
      (Column ''status'' (String 50))
        \<lparr>col_default := Some (Const (Str ''validated'')), col_nullable := False\<rparr>,
      Column ''error_message'' Text,
      Column ''schema_info'' JSON,
      created_at_column,
      updated_at_column]"
| "columns TimeSeriesData =
     [id_column,
      fk_column ''data_upload_id'' DataUpload,
      (Column ''timestamp'' DateTime)\<lparr>col_nullable := False, col_index := True\<rparr>,
      required ''value'' Float,
      required ''category'' (String 100),
      Column ''attributes'' JSON,
      created_at_column]"
| "columns TrainedModel =
     [id_column,
      fk_column ''user_id'' User,
      required ''model_name'' (String 100),
      required ''model_type'' (SQLEnum ''ModelType''),
      required ''forecast_type'' (SQLEnum ''ForecastType''),
      (Column ''version'' Integer)
        \<lparr>col_default := Some (Const (Num 1)), col_nullable := False\<rparr>,
      required ''model_path'' (String 255),
      Column ''mae'' Float,
      Column ''rmse'' Float,
      Column ''r2_score'' Float,
      Column ''mape'' Float,
      Column ''training_data_count'' Integer,
      Column ''model_params'' JSON,
      (Column ''is_active'' Boolean)
        \<lparr>col_default := Some (Const (Bool True)), col_nullable := False\<rparr>,
      created_at_column,
      updated_at_column]"
| "columns Forecast =
     [id_column,
      fk_column ''model_id'' TrainedModel,
      required ''forecast_date'' DateTime,
      required ''predicted_value'' Float,
      Column ''lower_confidence_interval'' Float,
      Column ''upper_confidence_interval'' Float,
      Column ''actual_value'' Float,
      Column ''forecast_metadata'' JSON,
      created_at_column]"
| "columns RiskMetrics =
     [id_column,
      fk_column ''model_id'' TrainedModel,
      (Column ''calculation_date'' DateTime)
        \<lparr>col_default := Some Utcnow, col_nullable := False\<rparr>,
      Column ''volatility'' Float,
      Column ''var_95'' Float,
      Column ''var_99'' Float,
      Column ''cvar_95'' Float,
      Column ''cvar_99'' Float,
      Column ''sharpe_ratio'' Float,
      Column ''correlation_data'' JSON,
      Column ''scenario_data'' JSON,
      created_at_column,
      updated_at_column]"
| "columns KPIReport =
     [id_column,
      fk_column ''model_id'' TrainedModel,
      (Column ''report_date'' DateTime)
        \<lparr>col_default := Some Utcnow, col_nullable := False\<rparr>,
      required ''report_period_start'' DateTime,
      required ''report_period_end'' DateTime,
      Column ''revenue_growth_rate'' Float,
      Column ''operating_margin'' Float,
      Column ''net_margin'' Float,
      Column ''forecast_accuracy'' Float,
      Column ''budget_variance'' Float,
      Column ''risk_adjusted_return'' Float,
      Column ''report_data'' JSON,
      created_at_column]"

text \<open>
  The classes also declare relationships between parent and child objects, with
  \<^verbatim>\<open>cascade="all, delete-orphan"\<close> from User to DataUpload and TrainedModel, from
  DataUpload to TimeSeriesData and from TrainedModel to Forecast. They ask the mapper to
  delete, object by object, rows that the foreign keys above already make the store
  delete; they add no column and no constraint, and the store is followed here.
\<close>

text \<open>
  The entries of \<^verbatim>\<open>__table_args__\<close>. The source only declares plain (non-unique)
  indexes; \<open>UniqueConstraint\<close> is the declaration it would take to make a combination
  of columns unique, and no class has one.
\<close>

datatype table_arg = Index string "string list" | UniqueConstraint "string list"

fun table_args :: "entity \<Rightarrow> table_arg list" where
  "table_args User =
     [Index ''idx_user_email'' [''email''], Index ''idx_user_username'' [''username'']]"
| "table_args DataUpload =
     [Index ''idx_upload_user_id'' [''user_id''],
      Index ''idx_upload_created_at'' [''created_at'']]"
| "table_args TimeSeriesData =
     [Index ''idx_ts_upload_id'' [''data_upload_id''],
      Index ''idx_ts_timestamp'' [''timestamp''],
      Index ''idx_ts_category_timestamp'' [''category'', ''timestamp'']]"
| "table_args TrainedModel =
     [Index ''idx_model_user_id'' [''user_id''],
      Index ''idx_model_name'' [''model_name''],
      Index ''idx_model_active'' [''is_active'']]"
| "table_args Forecast =
     [Index ''idx_forecast_model_id'' [''model_id''],
      Index ''idx_forecast_date'' [''forecast_date'']]"
| "table_args RiskMetrics =
     [Index ''idx_risk_model_id'' [''model_id''],
      Index ''idx_risk_calculation_date'' [''calculation_date'']]"
| "table_args KPIReport =
     [Index ''idx_kpi_model_id'' [''model_id''],
      Index ''idx_kpi_report_date'' [''report_date'']]"

text \<open>
  The classes in the order \<^verbatim>\<open>models.py\<close> defines them, which is the order importing
  the module registers their tables on \<^verbatim>\<open>Base.metadata\<close>.
\<close>

definition all_models :: "entity list" where
  "all_models =
     [User, DataUpload, TimeSeriesData, TrainedModel, Forecast, RiskMetrics, KPIReport]"


section \<open>The relational store\<close>

text \<open>
  The store keeps, for every table that exists, its committed rows; \<open>None\<close> is a table
  that has not been created. The source never implements the store: it hands the schema
  above to the engine and, in \<^verbatim>\<open>set_sqlite_pragma\<close>, switches foreign key enforcement
  on for every connection. The operations of this section are the engine's side of that
  contract, driven by what the schema declares.
\<close>

type_synonym store = "entity \<Rightarrow> row list option"

definition rows_of :: "store \<Rightarrow> entity \<Rightarrow> row list" where
  "rows_of T e = (case T e of None \<Rightarrow> [] | Some rs \<Rightarrow> rs)"

record foreign_key =
  fk_child :: entity
  fk_col :: string
  fk_parent :: entity
  fk_ondelete :: "ondelete option"

text \<open>The foreign keys an entity's columns declare, and those of the whole schema.\<close>

definition foreign_keys_of :: "entity \<Rightarrow> foreign_key list" where
  "foreign_keys_of e =
     concat (map (\<lambda>c. case col_foreign_key c of
                          None \<Rightarrow> []
                        | Some (p, a) \<Rightarrow>
                            [\<lparr>fk_child = e, fk_col = col_name c, fk_parent = p,
                              fk_ondelete = a\<rparr>])
                 (columns e))"

definition foreign_keys :: "foreign_key list" where
  "foreign_keys = concat (map foreign_keys_of all_models)"

text \<open>The rows of the child table whose foreign key column holds the value \<open>v\<close>.\<close>

definition referencing :: "store \<Rightarrow> foreign_key \<Rightarrow> val \<Rightarrow> row list" where
  "referencing T fk v =
     filter (\<lambda>r. v \<noteq> Null \<and> cell r (fk_col fk) = v) (rows_of T (fk_child fk))"

text \<open>
  How far below an entity its dependants reach; it only serves to show that following
  the cascading foreign keys of this schema comes to an end.
\<close>

fun depth :: "entity \<Rightarrow> nat" where
  "depth User = 2"
| "depth DataUpload = 1"
| "depth TrainedModel = 1"
| "depth TimeSeriesData = 0"
| "depth Forecast = 0"
| "depth RiskMetrics = 0"
| "depth KPIReport = 0"

text \<open>
  Modelled from the spec: the engine's \<^verbatim>\<open>ON DELETE CASCADE\<close> ("deleting P removes
  every E row referencing it"). Deleting the row \<open>i\<close> of \<open>e\<close> dooms that row and,
  through every foreign key declared with \<open>CASCADE\<close>, the rows that reference a doomed
  row.
\<close>

function doomed :: "store \<Rightarrow> entity \<Rightarrow> val \<Rightarrow> (entity \<times> val) list" where
  "doomed T e i =
     (e, i) #
     concat (map (\<lambda>fk. concat (map (\<lambda>r. doomed T (fk_child fk) (cell r ''id''))
                                     (referencing T fk i)))
                 (filter (\<lambda>fk. fk_parent fk = e \<and> fk_ondelete fk = Some CASCADE)
                         foreign_keys))"
  by pat_completeness auto
termination
proof (relation "measure (\<lambda>(T, e, i). depth e)")
  show "wf (measure (\<lambda>(T, e, i). depth e))"
    by simp
next
  fix T :: store and e :: entity and i :: val and fk :: foreign_key and r :: row
  assume "fk \<in> set (filter (\<lambda>fk. fk_parent fk = e \<and> fk_ondelete fk = Some CASCADE)
                          foreign_keys)"
  then have "depth (fk_child fk) < depth e"
    by (cases e; auto simp: foreign_keys_def foreign_keys_of_def all_models_def
        fk_column_def id_column_def created_at_column_def updated_at_column_def
        required_def Column_def)
  then show "((T, fk_child fk, cell r ''id''), (T, e, i)) \<in> measure (\<lambda>(T, e, i). depth e)"
    by simp
qed

declare doomed.simps [simp del]

text \<open>
  The store without the rows of \<open>D\<close>, and whether a row of the store still references
  a row of \<open>D\<close>.
\<close>

definition without :: "(entity \<times> val) list \<Rightarrow> store \<Rightarrow> store" where
  "without D T = (\<lambda>t. map_option (filter (\<lambda>r. (t, cell r ''id'') \<notin> set D)) (T t))"

definition still_referenced :: "(entity \<times> val) list \<Rightarrow> store \<Rightarrow> bool" where
  "still_referenced D T =
     (\<exists>fk \<in> set foreign_keys. \<exists>r \<in> set (rows_of T (fk_child fk)).
        cell r (fk_col fk) \<noteq> Null \<and> (fk_parent fk, cell r (fk_col fk)) \<in> set D)"

text \<open>
  Modelled from the spec: \<^verbatim>\<open>DELETE\<close> of one row by primary key on an engine that
  enforces foreign keys. The doomed rows go; the statement fails, changing nothing, when
  a row that stays would still reference a row that goes (a foreign key without
  \<open>CASCADE\<close>).
\<close>

definition delete_row :: "entity \<Rightarrow> val \<Rightarrow> store \<Rightarrow> exn + store" where
  "delete_row e i T =
     (case T e of
        None \<Rightarrow> Inl (OperationalError (''no such table: '' @ tablename e))
      | Some _ \<Rightarrow>
          if still_referenced (doomed T e i) (without (doomed T e i) T)
          then Inl (IntegrityError ''FOREIGN KEY constraint failed'')
          else Inr (without (doomed T e i) T))"

text \<open>
  The constraints of an entity, read off its declarations: \<^verbatim>\<open>nullable=False\<close>
  columns; \<^verbatim>\<open>primary_key\<close> and \<^verbatim>\<open>unique=True\<close> columns and unique constraints over
  several columns (a \<^verbatim>\<open>NULL\<close> never clashes); foreign keys.
\<close>

definition not_null_ok :: "entity \<Rightarrow> row \<Rightarrow> bool" where
  "not_null_ok e r = (\<forall>c \<in> set (columns e). col_nullable c \<or> cell r (col_name c) \<noteq> Null)"

definition unique_columns :: "entity \<Rightarrow> string list" where
  "unique_columns e =
     map col_name (filter (\<lambda>c. col_primary_key c \<or> col_unique c) (columns e))"

definition unique_ok :: "entity \<Rightarrow> row \<Rightarrow> row list \<Rightarrow> bool" where
  "unique_ok e r rs =
     ((\<forall>c \<in> set (unique_columns e).
         cell r c = Null \<or> (\<forall>r' \<in> set rs. cell r' c \<noteq> cell r c)) \<and>
      (\<forall>a \<in> set (table_args e).
         case a of
           Index _ _ \<Rightarrow> True
         | UniqueConstraint cs \<Rightarrow>
             (\<exists>c \<in> set cs. cell r c = Null) \<or>
             (\<forall>r' \<in> set rs. map (cell r') cs \<noteq> map (cell r) cs)))"

definition foreign_keys_ok :: "entity \<Rightarrow> row \<Rightarrow> store \<Rightarrow> bool" where
  "foreign_keys_ok e r T =
     (\<forall>fk \<in> set (foreign_keys_of e).
        cell r (fk_col fk) = Null \<or>
        (\<exists>p \<in> set (rows_of T (fk_parent fk)). cell p ''id'' = cell r (fk_col fk)))"

text \<open>
  Modelled from the spec: \<^verbatim>\<open>INSERT\<close> of one row on an engine that enforces the
  declared constraints ("uniqueness is enforced by the store", "every foreign key is
  enforced"). The row is stored, or the statement fails and changes nothing. The values
  of the row are not checked against the types of their columns: a row the engine
  refuses for that alone (an integer past 64 bits in an \<^verbatim>\<open>Integer\<close> column) is stored
  here, so the statement fails here only where it fails on the engine.
\<close>

definition insert_row :: "entity \<Rightarrow> row \<Rightarrow> store \<Rightarrow> exn + store" where
  "insert_row e r T =
     (case T e of
        None \<Rightarrow> Inl (OperationalError (''no such table: '' @ tablename e))
      | Some rs \<Rightarrow>
          if \<not> not_null_ok e r then Inl (IntegrityError ''NOT NULL constraint failed'')
          else if \<not> unique_ok e r rs then Inl (IntegrityError ''UNIQUE constraint failed'')
          else if \<not> foreign_keys_ok e r T
          then Inl (IntegrityError ''FOREIGN KEY constraint failed'')
          else Inr (T(e \<mapsto> rs @ [r])))"

text \<open>
  The engine's data definition statements: \<^verbatim>\<open>CREATE TABLE\<close> fails on a table that
  exists, \<^verbatim>\<open>DROP TABLE\<close> on one that does not. The indexes of a table are created and
  dropped with it.
\<close>

definition create_table :: "entity \<Rightarrow> store \<Rightarrow> exn + store" where
  "create_table e T =
     (if T e \<noteq> None
      then Inl (OperationalError (''table '' @ tablename e @ '' already exists''))
      else Inr (T(e \<mapsto> [])))"

definition drop_table :: "entity \<Rightarrow> store \<Rightarrow> exn + store" where
  "drop_table e T =
     (if T e = None
      then Inl (OperationalError (''no such table: '' @ tablename e))
      else Inr (T(e := None)))"

text \<open>
  \<^verbatim>\<open>MetaData.create_all\<close> and \<^verbatim>\<open>MetaData.drop_all\<close> as the source calls them, with
  \<^verbatim>\<open>checkfirst\<close> left at its default \<^verbatim>\<open>True\<close>: a table is created only when the store
  does not have it, and dropped only when it does.
\<close>

fun create_all :: "entity list \<Rightarrow> store \<Rightarrow> exn + store" where
  "create_all [] T = Inr T"
| "create_all (e # es) T =
     (if T e \<noteq> None then create_all es T
      else (case create_table e T of
              Inl x \<Rightarrow> Inl x
            | Inr T' \<Rightarrow> create_all es T'))"

fun drop_all :: "entity list \<Rightarrow> store \<Rightarrow> exn + store" where
  "drop_all [] T = Inr T"
| "drop_all (e # es) T =
     (if T e = None then drop_all es T
      else (case drop_table e T of
              Inl x \<Rightarrow> Inl x
            | Inr T' \<Rightarrow> drop_all es T'))"


section \<open>The running process\<close>

text \<open>
  A session holds the objects added to it (those before \<open>flushed\<close> have been written
  by an \<^verbatim>\<open>INSERT\<close> of the open transaction, the rest are pending) and, while it has a
  transaction open on a pooled connection, the store as that transaction sees it.
\<close>

record session =
  objects :: "(entity \<times> row) list"
  flushed :: nat
  txn :: "store option"

definition new_session :: session where
  "new_session = \<lparr>objects = [], flushed = 0, txn = None\<rparr>"

text \<open>
  What the code reads and changes: the committed store; the tables registered on
  \<^verbatim>\<open>Base.metadata\<close> (those of the model classes imported so far); the error the engine
  raises when a connection is asked for (\<open>None\<close> when the store can be reached); the
  error \<^verbatim>\<open>Connection.execute\<close> raises when it is handed a plain string instead of an
  executable statement (\<open>None\<close> where the installed mapper accepts one); the number of
  pooled connections in use; the sessions made so far; the values \<^verbatim>\<open>uuid.uuid4()\<close> is
  going to return; the UTC clock; and the log.
\<close>

record world =
  tables :: store
  metadata :: "entity list"
  engine_fault :: "exn option"
  raw_sql_fault :: "exn option"
  checked_out :: nat
  sessions :: "nat \<Rightarrow> session"
  session_count :: nat
  uuids :: "nat \<Rightarrow> string"
  uuid_count :: nat
  clock :: nat
  logs :: "(level \<times> string) list"

text \<open>
  A piece of code runs on the world and either returns a value (\<open>Inr\<close>) or raises
  (\<open>Inl\<close>); either way the world is as the code left it.
\<close>

type_synonym 'a io = "world \<Rightarrow> (exn + 'a) \<times> world"

definition ret :: "'a \<Rightarrow> 'a io" where
  "ret x w = (Inr x, w)"

definition raise :: "exn \<Rightarrow> 'a io" where
  "raise e w = (Inl e, w)"

definition lift :: "exn + 'a \<Rightarrow> 'a io" where
  "lift r w = (r, w)"

definition andthen :: "'a io \<Rightarrow> ('a \<Rightarrow> 'b io) \<Rightarrow> 'b io" where
  "andthen m f w = (case m w of (Inl e, w') \<Rightarrow> (Inl e, w') | (Inr x, w') \<Rightarrow> f x w')"

text \<open>\<^verbatim>\<open>try: m except Exception as e: h(e)\<close>.\<close>

definition try_except :: "'a io \<Rightarrow> (exn \<Rightarrow> 'a io) \<Rightarrow> 'a io" where
  "try_except m h w = (case m w of (Inl e, w') \<Rightarrow> h e w' | (Inr x, w') \<Rightarrow> (Inr x, w'))"

text \<open>
  \<^verbatim>\<open>try: m finally: fin\<close>: \<open>fin\<close> runs on every exit of \<open>m\<close>; what \<open>m\<close> returned
  or raised stands unless \<open>fin\<close> raises itself.
\<close>

definition try_finally :: "'a io \<Rightarrow> unit io \<Rightarrow> 'a io" where
  "try_finally m fin w =
     (case m w of
        (r, w') \<Rightarrow> (case fin w' of (Inl e, w'') \<Rightarrow> (Inl e, w'') | (Inr _, w'') \<Rightarrow> (r, w'')))"

definition logger :: "level \<Rightarrow> string \<Rightarrow> unit io" where
  "logger l m w = (Inr (), w\<lparr>logs := logs w @ [(l, m)]\<rparr>)"

text \<open>The signs the log messages of \<^verbatim>\<open>db_init.py\<close> start with, as UTF-8.\<close>

definition check_mark :: string where
  "check_mark = [CHR 0xE2, CHR 0x9C, CHR 0x93]"

definition ballot_x :: string where
  "ballot_x = [CHR 0xE2, CHR 0x9C, CHR 0x97]"

definition warning_sign :: string where
  "warning_sign = [CHR 0xE2, CHR 0x9A, CHR 0xA0, CHR 0xEF, CHR 0xB8, CHR 0x8F]"


subsection \<open>The engine and its sessions\<close>

text \<open>\<^verbatim>\<open>engine.connect()\<close> checks a connection out of the pool, closing it puts it back.\<close>

definition engine_connect :: "unit io" where
  "engine_connect w =
     (case engine_fault w of
        Some e \<Rightarrow> (Inl e, w)
      | None \<Rightarrow> (Inr (), w\<lparr>checked_out := checked_out w + 1\<rparr>))"

definition connection_close :: "unit io" where
  "connection_close w = (Inr (), w\<lparr>checked_out := checked_out w - 1\<rparr>)"

text \<open>\<^verbatim>\<open>with engine.connect() as connection: body\<close>.\<close>

definition with_connection :: "'a io \<Rightarrow> 'a io" where
  "with_connection body = andthen engine_connect (\<lambda>_. try_finally body connection_close)"

text \<open>\<^verbatim>\<open>connection.execute("SELECT 1")\<close>: a plain string handed to the connection.\<close>

definition execute_string :: "string \<Rightarrow> unit io" where
  "execute_string sql w = (case raw_sql_fault w of Some e \<Rightarrow> (Inl e, w) | None \<Rightarrow> (Inr (), w))"

definition update_session :: "nat \<Rightarrow> (session \<Rightarrow> session) \<Rightarrow> world \<Rightarrow> world" where
  "update_session db f w = w\<lparr>sessions := (sessions w)(db := f (sessions w db))\<rparr>"

text \<open>The store as the session sees it: its transaction's, else the committed one.\<close>

definition view :: "world \<Rightarrow> nat \<Rightarrow> store" where
  "view w db = (case txn (sessions w db) of None \<Rightarrow> tables w | Some T \<Rightarrow> T)"

text \<open>\<^verbatim>\<open>SessionLocal()\<close>: a new session; it takes no connection before it needs one.\<close>

definition SessionLocal :: "nat io" where
  "SessionLocal w =
     (Inr (session_count w),
      w\<lparr>sessions := (sessions w)(session_count w := new_session),
        session_count := session_count w + 1\<rparr>)"

text \<open>A session begins its transaction with the first statement it sends.\<close>

definition session_begin :: "nat \<Rightarrow> unit io" where
  "session_begin db w =
     (case txn (sessions w db) of
        Some _ \<Rightarrow> (Inr (), w)
      | None \<Rightarrow>
          (case engine_fault w of
             Some e \<Rightarrow> (Inl e, w)
           | None \<Rightarrow>
               (Inr (),
                (update_session db (\<lambda>s. s\<lparr>txn := Some (tables w)\<rparr>) w)
                  \<lparr>checked_out := checked_out w + 1\<rparr>)))"

text \<open>Ending the transaction gives the connection back to the pool.\<close>

definition end_txn :: "nat \<Rightarrow> world \<Rightarrow> world" where
  "end_txn db w =
     (case txn (sessions w db) of
        None \<Rightarrow> w
      | Some _ \<Rightarrow>
          (update_session db (\<lambda>s. s\<lparr>txn := None\<rparr>) w)\<lparr>checked_out := checked_out w - 1\<rparr>)"

text \<open>
  \<^verbatim>\<open>db.query(E).filter(E.c == v).first()\<close>: the first row of the entity whose column
  \<open>c\<close> is \<open>v\<close>, or \<^verbatim>\<open>None\<close>. The session factory is made with \<^verbatim>\<open>autoflush=False\<close>, so
  pending objects are not written first.
\<close>

definition query_first :: "nat \<Rightarrow> entity \<Rightarrow> string \<Rightarrow> val \<Rightarrow> row option io" where
  "query_first db e c v =
     andthen (session_begin db) (\<lambda>_ w.
       case view w db e of
         None \<Rightarrow> (Inl (OperationalError (''no such table: '' @ tablename e)), w)
       | Some rs \<Rightarrow> (Inr (find (\<lambda>r. cell r c = v) rs), w))"

text \<open>\<^verbatim>\<open>db.add(obj)\<close>: the object is pending; the result is its place in the session.\<close>

definition add :: "nat \<Rightarrow> entity \<Rightarrow> row \<Rightarrow> nat io" where
  "add db e r w =
     (Inr (length (objects (sessions w db))),
      update_session db (\<lambda>s. s\<lparr>objects := objects s @ [(e, r)]\<rparr>) w)"

text \<open>The attributes of an object of the session as they stand.\<close>

definition attrs :: "nat \<Rightarrow> nat \<Rightarrow> row io" where
  "attrs db obj w =
     (case drop obj (objects (sessions w db)) of
        [] \<Rightarrow> (Inl (Exception ''object is not in the session''), w)
      | (e, r) # _ \<Rightarrow> (Inr r, w))"

text \<open>The value a column takes when the object does not set it.\<close>

definition column_default :: "column \<Rightarrow> val io" where
  "column_default c w =
     (case col_default c of
        None \<Rightarrow> (Inr Null, w)
      | Some (Const v) \<Rightarrow> (Inr v, w)
      | Some Uuid4 \<Rightarrow> (Inr (Str (uuids w (uuid_count w))), w\<lparr>uuid_count := uuid_count w + 1\<rparr>)
      | Some Utcnow \<Rightarrow> (Inr (Time (clock w)), w))"

fun fill :: "column list \<Rightarrow> row \<Rightarrow> row io" where
  "fill [] r = ret []"
| "fill (c # cs) r =
     andthen (case map_of r (col_name c) of Some v \<Rightarrow> ret v | None \<Rightarrow> column_default c)
       (\<lambda>v. andthen (fill cs r) (\<lambda>rest. ret ((col_name c, v) # rest)))"

text \<open>The \<^verbatim>\<open>INSERT\<close> of one object in the session's transaction.\<close>

definition session_insert :: "nat \<Rightarrow> entity \<Rightarrow> row \<Rightarrow> unit io" where
  "session_insert db e r w =
     (case insert_row e r (view w db) of
        Inl x \<Rightarrow> (Inl x, w)
      | Inr T \<Rightarrow> (Inr (), update_session db (\<lambda>s. s\<lparr>txn := Some T\<rparr>) w))"

fun flush_from :: "nat \<Rightarrow> nat \<Rightarrow> (entity \<times> row) list \<Rightarrow> unit io" where
  "flush_from db i [] = ret ()"
| "flush_from db i ((e, r) # os) =
     andthen (fill (columns e) r) (\<lambda>filled.
     andthen (session_insert db e filled) (\<lambda>_.
     andthen (\<lambda>w. (Inr (),
                update_session db
                  (\<lambda>s. s\<lparr>objects := (objects s)[i := (e, filled)], flushed := Suc i\<rparr>) w))
       (\<lambda>_. flush_from db (Suc i) os)))"

text \<open>
  \<^verbatim>\<open>db.flush()\<close>: every pending object is inserted, with the defaults of the columns
  it leaves unset. When an insert fails the transaction is rolled back and the error
  raised.
\<close>

definition flush :: "nat \<Rightarrow> unit io" where
  "flush db w =
     (let pend = drop (flushed (sessions w db)) (objects (sessions w db)) in
      if pend = [] then (Inr (), w)
      else andthen (session_begin db) (\<lambda>_.
             try_except (flush_from db (flushed (sessions w db)) pend)
               (\<lambda>x w'. (Inl x, end_txn db w'))) w)"

text \<open>
  \<^verbatim>\<open>db.commit()\<close>: flush, then the transaction's view becomes the committed store.
\<close>

definition commit :: "nat \<Rightarrow> unit io" where
  "commit db =
     andthen (flush db) (\<lambda>_ w. (Inr (), end_txn db (w\<lparr>tables := view w db\<rparr>)))"

text \<open>
  \<^verbatim>\<open>db.rollback()\<close> and \<^verbatim>\<open>db.close()\<close>: what the transaction wrote is dropped, the
  objects leave the session and the connection goes back to the pool.
\<close>

definition rollback :: "nat \<Rightarrow> unit io" where
  "rollback db w =
     (Inr (), end_txn db (update_session db (\<lambda>s. s\<lparr>objects := [], flushed := 0\<rparr>) w))"

definition close :: "nat \<Rightarrow> unit io" where
  "close db w =
     (Inr (), end_txn db (update_session db (\<lambda>s. s\<lparr>objects := [], flushed := 0\<rparr>) w))"


section \<open>\<^verbatim>\<open>database.py\<close>\<close>

text \<open>
  \<^verbatim>\<open>get_db\<close> is a generator: it makes a session, yields it, and is resumed when the
  unit of work that received the session is over, with the error thrown into it if the
  unit of work raised. \<open>body\<close> is that unit of work.
\<close>

definition get_db :: "(nat \<Rightarrow> 'a io) \<Rightarrow> 'a io" where
  "get_db body =
     andthen SessionLocal (\<lambda>db.
       try_finally
         (try_except (body db)
            (\<lambda>e. andthen (rollback db) (\<lambda>_.
                 andthen (logger ERROR (''Database session error: '' @ str e)) (\<lambda>_.
                 raise e))))
         (close db))"

text \<open>
  \<^verbatim>\<open>Base.metadata.create_all(bind=engine)\<close> and \<^verbatim>\<open>Base.metadata.drop_all(bind=engine)\<close>
  on a connection of the engine; tables are dropped in the reverse of the order they are
  created in.
\<close>

definition metadata_create_all :: "unit io" where
  "metadata_create_all =
     with_connection (\<lambda>w.
       case create_all (metadata w) (tables w) of
         Inl x \<Rightarrow> (Inl x, w)
       | Inr T \<Rightarrow> (Inr (), w\<lparr>tables := T\<rparr>))"

definition metadata_drop_all :: "unit io" where
  "metadata_drop_all =
     with_connection (\<lambda>w.
       case drop_all (rev (metadata w)) (tables w) of
         Inl x \<Rightarrow> (Inl x, w)
       | Inr T \<Rightarrow> (Inr (), w\<lparr>tables := T\<rparr>))"

definition init_db :: "unit io" where
  "init_db =
     andthen (logger INFO ''Initializing database...'') (\<lambda>_.
     andthen metadata_create_all (\<lambda>_.
     logger INFO ''Database initialized successfully''))"

definition drop_db :: "unit io" where
  "drop_db =
     andthen (logger WARNING ''Dropping all database tables...'') (\<lambda>_.
     andthen metadata_drop_all (\<lambda>_.
     logger WARNING ''All tables dropped''))"


section \<open>\<^verbatim>\<open>db_init.py\<close>\<close>

text \<open>
  \<^verbatim>\<open>str.lower()\<close>. Strings are byte strings here (UTF-8), and only the ASCII capitals
  are mapped. That decides the one comparison the source makes, with \<^verbatim>\<open>"yes"\<close>, as
  Python does: no character outside ASCII has \<^verbatim>\<open>y\<close>, \<^verbatim>\<open>e\<close> or \<^verbatim>\<open>s\<close> in its lower
  case form.
\<close>

definition lower_char :: "char \<Rightarrow> char" where
  "lower_char c =
     (case map_of (zip ''ABCDEFGHIJKLMNOPQRSTUVWXYZ'' ''abcdefghijklmnopqrstuvwxyz'') c of
        Some l \<Rightarrow> l
      | None \<Rightarrow> c)"

definition lower :: "string \<Rightarrow> string" where
  "lower s = map lower_char s"

text \<open>\<^verbatim>\<open>setup_database\<close>; \<open>url\<close> is \<^verbatim>\<open>settings.database_url\<close>.\<close>

definition setup_database :: "string \<Rightarrow> bool io" where
  "setup_database url =
     andthen (logger INFO (''Setting up database at: '' @ url)) (\<lambda>_.
     try_except
       (andthen init_db (\<lambda>_.
        andthen (logger SUCCESS (check_mark @ '' Database setup completed successfully''))
          (\<lambda>_.
        ret True)))
       (\<lambda>e. andthen (logger ERROR (ballot_x @ '' Database setup failed: '' @ str e)) (\<lambda>_.
            ret False)))"

text \<open>
  \<^verbatim>\<open>reset_database\<close>, in two steps. \<open>reset_database confirm\<close> is the function
  on a run where \<^verbatim>\<open>input\<close> returns the line \<open>confirm\<close>.
\<close>

definition reset_database :: "string \<Rightarrow> bool io" where
  "reset_database confirm =
     andthen (logger WARNING
                (warning_sign @ ''  WARNING: This will DELETE all data from the database!''))
       (\<lambda>_.
     if lower confirm = ''yes'' then
       try_except
         (andthen drop_db (\<lambda>_.
          andthen init_db (\<lambda>_.
          andthen (logger SUCCESS (check_mark @ '' Database reset completed successfully''))
            (\<lambda>_.
          ret True))))
         (\<lambda>e. andthen (logger ERROR (ballot_x @ '' Database reset failed: '' @ str e)) (\<lambda>_.
              ret False))
     else
       andthen (logger INFO ''Database reset cancelled'') (\<lambda>_.
       ret False))"

text \<open>
  \<^verbatim>\<open>reset_database\<close> on either outcome of \<^verbatim>\<open>input\<close>, which returns the line it
  read or raises (\<^verbatim>\<open>EOFError\<close> when the standard input is closed). It is called after
  the warning is logged and before the \<^verbatim>\<open>try\<close> statement is entered, so no handler of
  the function sees its error.
\<close>

definition reset_database_prompt :: "exn + string \<Rightarrow> bool io" where
  "reset_database_prompt answer =
     (case answer of
        Inl x \<Rightarrow>
          andthen (logger WARNING
                     (warning_sign @ ''  WARNING: This will DELETE all data from the database!''))
            (\<lambda>_. raise x)
      | Inr confirm \<Rightarrow> reset_database confirm)"

text \<open>
  \<^verbatim>\<open>from src.models import User, UserRole\<close>: importing the module defines the seven
  classes, which registers their tables on \<^verbatim>\<open>Base.metadata\<close>.
\<close>

definition import_models :: "unit io" where
  "import_models w = (Inr (), w\<lparr>metadata := all_models\<rparr>)"

text \<open>
  \<^verbatim>\<open>create_admin_user\<close>; \<open>pwd_hash\<close> is \<^verbatim>\<open>pwd_context.hash\<close>, the hashing capability
  the source takes from \<^verbatim>\<open>passlib\<close>. The result is the user object, or \<^verbatim>\<open>None\<close>.
\<close>

definition create_admin_user :: "(string \<Rightarrow> exn + string) \<Rightarrow> row option io" where
  "create_admin_user pwd_hash =
     andthen import_models (\<lambda>_.
     andthen SessionLocal (\<lambda>db.
       try_finally
         (try_except
            (andthen (query_first db User ''username'' (Str ''admin'')) (\<lambda>existing_admin.
               case existing_admin of
                 Some u \<Rightarrow>
                   andthen (logger INFO ''Admin user already exists'') (\<lambda>_.
                   ret (Some u))
               | None \<Rightarrow>
                   andthen (lift (pwd_hash ''admin123'')) (\<lambda>hashed.
                   andthen (add db User
                              [(''username'', Str ''admin''),
                               (''email'', Str ''admin@financialanalytics.local''),
                               (''hashed_password'', Str hashed),
                               (''full_name'', Str ''System Administrator''),
                               (''role'', Role ADMIN),
                               (''is_active'', Bool True)]) (\<lambda>admin_user.
                   andthen (commit db) (\<lambda>_.
                   andthen (logger SUCCESS (check_mark @ '' Admin user created successfully''))
                     (\<lambda>_.
                   andthen (logger INFO ''  Username: admin'') (\<lambda>_.
                   andthen (logger INFO ''  Password: admin123'') (\<lambda>_.
                   andthen (logger INFO ''  Email: admin@financialanalytics.local'') (\<lambda>_.
                   andthen (attrs db admin_user) (\<lambda>u.
                   ret (Some u)))))))))))
            (\<lambda>e. andthen (rollback db) (\<lambda>_.
                 andthen (logger ERROR (ballot_x @ '' Failed to create admin user: '' @ str e))
                   (\<lambda>_.
                 ret None))))
         (close db)))"

text \<open>\<^verbatim>\<open>check_database_connection\<close>.\<close>

definition check_database_connection :: "bool io" where
  "check_database_connection =
     try_except
       (with_connection
          (andthen (execute_string ''SELECT 1'') (\<lambda>result.
           andthen (logger SUCCESS (check_mark @ '' Database connection successful'')) (\<lambda>_.
           ret True))))
       (\<lambda>e. andthen (logger ERROR (ballot_x @ '' Database connection failed: '' @ str e)) (\<lambda>_.
            ret False))"


section \<open>Properties and sample data\<close>

subsection \<open>Invariants of the store\<close>

text \<open>
  No orphaned child row: for every foreign key of the schema, every row of the child
  table holds a reference, and the parent table has the row it refers to.
\<close>

definition orphan_free :: "store \<Rightarrow> bool" where
  "orphan_free T =
     (\<forall>fk \<in> set foreign_keys. \<forall>r \<in> set (rows_of T (fk_child fk)).
        cell r (fk_col fk) \<noteq> Null \<and>
        (\<exists>p \<in> set (rows_of T (fk_parent fk)). cell p ''id'' = cell r (fk_col fk)))"

text \<open>
  The declared constraints hold in a store: no row leaves a \<^verbatim>\<open>nullable=False\<close> column
  empty, and no two rows of a table share the value of a primary key or
  \<^verbatim>\<open>unique=True\<close> column.
\<close>

definition constraints_hold :: "store \<Rightarrow> bool" where
  "constraints_hold T =
     (\<forall>e. (\<forall>r \<in> set (rows_of T e). not_null_ok e r) \<and>
          (\<forall>c \<in> set (unique_columns e).
             distinct (filter (\<lambda>v. v \<noteq> Null) (map (\<lambda>r. cell r c) (rows_of T e)))))"

text \<open>
  The states of the store: the schema created on an empty store, then any sequence of
  inserts and deletes the engine accepts.
\<close>

inductive reachable :: "store \<Rightarrow> bool" where
  created: "create_all all_models (\<lambda>_. None) = Inr T \<Longrightarrow> reachable T"
| inserted: "reachable T \<Longrightarrow> insert_row e r T = Inr T' \<Longrightarrow> reachable T'"
| deleted: "reachable T \<Longrightarrow> delete_row e i T = Inr T' \<Longrightarrow> reachable T'"


subsection \<open>Units of work\<close>

text \<open>
  A unit of work, for the purpose of speaking about all of them: the statements a caller
  can send through the session it was handed, run in order until one raises.
\<close>

datatype stmt =
  Add entity row | Query entity string val | Flush | Commit | Rollback | Raise exn

fun exec :: "nat \<Rightarrow> stmt \<Rightarrow> unit io" where
  "exec db (Add e r) = andthen (add db e r) (\<lambda>_. ret ())"
| "exec db (Query e c v) = andthen (query_first db e c v) (\<lambda>_. ret ())"
| "exec db Flush = flush db"
| "exec db Commit = commit db"
| "exec db Rollback = rollback db"
| "exec db (Raise x) = raise x"

fun run :: "nat \<Rightarrow> stmt list \<Rightarrow> unit io" where
  "run db [] = ret ()"
| "run db (s # ss) = andthen (exec db s) (\<lambda>_. run db ss)"

text \<open>
  The connections the pool has handed out are those it had handed out at \<open>base\<close>, and
  one more while the session has a transaction open.
\<close>

definition held :: "world \<Rightarrow> nat \<Rightarrow> nat" where
  "held w db = (if txn (sessions w db) = None then 0 else 1)"

definition pooled :: "nat \<Rightarrow> nat \<Rightarrow> world \<Rightarrow> bool" where
  "pooled base db w = (checked_out w = base + held w db)"

definition in_txn :: "nat \<Rightarrow> nat \<Rightarrow> world \<Rightarrow> bool" where
  "in_txn base db w = (pooled base db w \<and> txn (sessions w db) \<noteq> None)"

text \<open>The committed store is \<open>T\<close>.\<close>

definition stored :: "store \<Rightarrow> world \<Rightarrow> bool" where
  "stored T w = (tables w = T)"

text \<open>Two worlds differ at most in how many identifiers have been drawn.\<close>

definition only_uuid :: "world \<Rightarrow> world \<Rightarrow> bool" where
  "only_uuid w w' = (\<exists>n. w' = w\<lparr>uuid_count := n\<rparr>)"

text \<open>A piece of code keeps a property of the world, whether it returns or raises.\<close>

definition preserves :: "(world \<Rightarrow> bool) \<Rightarrow> 'a io \<Rightarrow> bool" where
  "preserves P m = (\<forall>w. P w \<longrightarrow> P (snd (m w)))"

text \<open>
  The world \<^verbatim>\<open>get_db\<close> leaves behind, given how the unit of work ended: closed after
  a return; rolled back, logged and closed after an error.
\<close>

definition unit_exit :: "nat \<Rightarrow> (exn + 'a) \<times> world \<Rightarrow> world" where
  "unit_exit db out =
     (case out of
        (Inr _, w2) \<Rightarrow> snd (close db w2)
      | (Inl e, w2) \<Rightarrow>
          snd (close db
                (snd (logger ERROR (''Database session error: '' @ str e)
                       (snd (rollback db w2))))))"


subsection \<open>The bootstrap operation\<close>

text \<open>
  The row \<^verbatim>\<open>create_admin_user\<close> writes, given the hash, the identifier drawn and the
  time; the test its query makes; the world once the models are imported and the session
  is made; and its outcome on a failure \<open>x\<close>.
\<close>

definition admin_row :: "string \<Rightarrow> string \<Rightarrow> nat \<Rightarrow> row" where
  "admin_row hashed uid now =
     [(''id'', Str uid), (''username'', Str ''admin''),
      (''email'', Str ''admin@financialanalytics.local''), (''hashed_password'', Str hashed),
      (''full_name'', Str ''System Administrator''), (''role'', Role ADMIN),
      (''is_active'', Bool True), (''created_at'', Time now), (''updated_at'', Time now)]"

definition is_admin :: "row \<Rightarrow> bool" where
  "is_admin r = (cell r ''username'' = Str ''admin'')"

definition entered :: "world \<Rightarrow> world" where
  "entered w =
     w\<lparr>metadata := all_models,
       sessions := (sessions w)(session_count w := new_session),
       session_count := session_count w + 1\<rparr>"

definition failed :: "exn \<Rightarrow> world \<Rightarrow> row option io" where
  "failed x w w' =
     (Inr None,
      w'\<lparr>logs := logs w @ [(ERROR, ballot_x @ '' Failed to create admin user: '' @ str x)]\<rparr>)"


subsection \<open>Reported failures\<close>

text \<open>
  A piece of code, run on a world, returns \<open>v\<close> and the last line it has logged is the
  error message \<open>msg\<close>.
\<close>

definition reports :: "'a io \<Rightarrow> world \<Rightarrow> 'a \<Rightarrow> string \<Rightarrow> bool" where
  "reports m w v msg = (fst (m w) = Inr v \<and> last (logs (snd (m w))) = (ERROR, msg))"


subsection \<open>Sample data\<close>

text \<open>A user, an upload of that user and an observation of that upload.\<close>

definition sample_user :: row where
  "sample_user =
     [(''id'', Str ''u-1''), (''username'', Str ''bob''), (''email'', Str ''bob@example.org''),
      (''hashed_password'', Str ''x''), (''full_name'', Null), (''role'', Role VIEWER),
      (''is_active'', Bool True), (''created_at'', Time 0), (''updated_at'', Time 0)]"

definition sample_upload :: row where
  "sample_upload =
     [(''id'', Str ''d-1''), (''user_id'', Str ''u-1''), (''filename'', Str ''q1.csv''),
      (''data_type'', Str ''time_series''), (''row_count'', Num 1),
      (''status'', Str ''validated''), (''created_at'', Time 0)]"

definition sample_point :: row where
  "sample_point =
     [(''id'', Str ''t-1''), (''data_upload_id'', Str ''d-1''), (''timestamp'', Time 0),
      (''value'', Flt 0), (''category'', Str ''revenue''), (''created_at'', Time 0)]"

text \<open>
  A second user that takes the sample user's name, a user that holds the address of the
  bootstrap administrator, and two trained models of the sample user under one name and
  one version.
\<close>

definition second_bob :: row where
  "second_bob =
     [(''id'', Str ''u-2''), (''username'', Str ''bob''), (''email'', Str ''bob2@example.org''),
      (''hashed_password'', Str ''y''), (''full_name'', Null), (''role'', Role ANALYST),
      (''is_active'', Bool True), (''created_at'', Time 1), (''updated_at'', Time 1)]"

definition squatter :: row where
  "squatter =
     [(''id'', Str ''u-9''), (''username'', Str ''root''),
      (''email'', Str ''admin@financialanalytics.local''), (''hashed_password'', Str ''z''),
      (''full_name'', Null), (''role'', Role VIEWER), (''is_active'', Bool True),
      (''created_at'', Time 0), (''updated_at'', Time 0)]"

definition model_a :: row where
  "model_a =
     [(''id'', Str ''m-1''), (''user_id'', Str ''u-1''), (''model_name'', Str ''revenue''),
      (''model_type'', MType ARIMA), (''forecast_type'', FType REVENUE), (''version'', Num 1),
      (''model_path'', Str ''models/a.pkl''), (''is_active'', Bool True),
      (''created_at'', Time 0), (''updated_at'', Time 0)]"

definition model_b :: row where
  "model_b =
     [(''id'', Str ''m-2''), (''user_id'', Str ''u-1''), (''model_name'', Str ''revenue''),
      (''model_type'', MType ARIMA), (''forecast_type'', FType REVENUE), (''version'', Num 1),
      (''model_path'', Str ''models/b.pkl''), (''is_active'', Bool True),
      (''created_at'', Time 1), (''updated_at'', Time 1)]"

text \<open>The schema with no rows, and with the sample rows.\<close>

definition empty_schema :: store where
  "empty_schema = (\<lambda>_. Some [])"

definition sample_store :: store where
  "sample_store =
     empty_schema(User \<mapsto> [sample_user], DataUpload \<mapsto> [sample_upload],
                  TimeSeriesData \<mapsto> [sample_point])"

text \<open>
  A process that has imported the models, on a store that can be reached and holds the
  sample rows; the same process on a store where only the users table exists, on one
  that holds only the user with the bootstrap address, and on one that cannot be
  reached; and a process that has imported nothing, on a database where nothing has been
  created.
\<close>

definition sample_world :: world where
  "sample_world =
     \<lparr>tables = sample_store, metadata = all_models, engine_fault = None,
      raw_sql_fault = None, checked_out = 0, sessions = (\<lambda>_. new_session),
      session_count = 0, uuids = (\<lambda>n. ''uuid-'' @ replicate n (CHR ''x'')), uuid_count = 0,
      clock = 0, logs = []\<rparr>"

definition bare_world :: world where
  "bare_world =
     sample_world\<lparr>tables := (\<lambda>e. if e = User then Some [sample_user] else None)\<rparr>"

definition taken_world :: world where
  "taken_world = sample_world\<lparr>tables := empty_schema(User \<mapsto> [squatter])\<rparr>"

definition down_world :: world where
  "down_world =
     sample_world\<lparr>engine_fault := Some (OperationalError ''unable to open database file'')\<rparr>"

definition fresh_world :: world where
  "fresh_world = sample_world\<lparr>tables := (\<lambda>_. None), metadata := []\<rparr>"

text \<open>
  The sample process with a mapper whose \<^verbatim>\<open>Connection.execute\<close> takes executable
  statements only and refuses a plain string; the store can be reached.
\<close>

definition strict_world :: world where
  "strict_world =
     sample_world\<lparr>raw_sql_fault :=
       Some (ObjectNotExecutableError ''Not an executable object: SELECT 1'')\<rparr>"

text \<open>
  A hashing capability that works and one that fails, the administrator the sample
  world gets, and two units of work that raise.
\<close>

definition sample_hash :: "string \<Rightarrow> exn + string" where
  "sample_hash plaintext = Inr (''$2b$12$'' @ plaintext)"

definition failing_hash :: "string \<Rightarrow> exn + string" where
  "failing_hash plaintext = Inl (Exception ''bcrypt: no backends available'')"

definition sample_admin :: row where
  "sample_admin = admin_row ''$2b$12$admin123'' ''uuid-'' 0"

definition failing_unit :: "stmt list" where
  "failing_unit = [Add TrainedModel model_a, Flush, Raise (Exception ''training failed'')]"

definition raising_unit :: "nat \<Rightarrow> unit io" where
  "raising_unit db = raise (Exception ''boom'')"

text \<open>The \<^verbatim>\<open>EOFError\<close> that \<^verbatim>\<open>input\<close> raises when the standard input is closed.\<close>

definition end_of_input :: exn where
  "end_of_input = Exception ''EOF when reading a line''"


section \<open>Auxiliary facts\<close>

lemmas io_defs =
  ret_def raise_def lift_def andthen_def try_except_def try_finally_def logger_def

lemmas schema_defs =
  foreign_keys_def foreign_keys_of_def all_models_def fk_column_def id_column_def
  created_at_column_def updated_at_column_def required_def Column_def

lemmas check_defs =
  insert_row_def not_null_ok_def unique_ok_def unique_columns_def foreign_keys_ok_def
  rows_of_def cell_def

lemma all_models_complete: "e \<in> set all_models"
  by (cases e) (simp_all add: all_models_def)

lemma foreign_keys_eq:
  "foreign_keys =
     [\<lparr>fk_child = DataUpload, fk_col = ''user_id'', fk_parent = User,
       fk_ondelete = Some CASCADE\<rparr>,
      \<lparr>fk_child = TimeSeriesData, fk_col = ''data_upload_id'', fk_parent = DataUpload,
       fk_ondelete = Some CASCADE\<rparr>,
      \<lparr>fk_child = TrainedModel, fk_col = ''user_id'', fk_parent = User,
       fk_ondelete = Some CASCADE\<rparr>,
      \<lparr>fk_child = Forecast, fk_col = ''model_id'', fk_parent = TrainedModel,
       fk_ondelete = Some CASCADE\<rparr>,
      \<lparr>fk_child = RiskMetrics, fk_col = ''model_id'', fk_parent = TrainedModel,
       fk_ondelete = Some CASCADE\<rparr>,
      \<lparr>fk_child = KPIReport, fk_col = ''model_id'', fk_parent = TrainedModel,
       fk_ondelete = Some CASCADE\<rparr>]"
  by (simp add: schema_defs)

lemma all_cascade: "fk \<in> set foreign_keys \<Longrightarrow> fk_ondelete fk = Some CASCADE"
  by (auto simp: foreign_keys_eq)

lemma foreign_keys_of_child:
  "fk \<in> set foreign_keys \<Longrightarrow> fk \<in> set (foreign_keys_of (fk_child fk))"
  by (auto simp: foreign_keys_eq) (simp_all add: schema_defs)

lemma fk_not_nullable:
  "fk \<in> set foreign_keys \<Longrightarrow> not_null_ok (fk_child fk) r \<Longrightarrow> cell r (fk_col fk) \<noteq> Null"
  by (auto simp: foreign_keys_eq not_null_ok_def schema_defs)

subsection \<open>Creating and dropping tables\<close>

lemma drop_all_eq: "drop_all es T = Inr (\<lambda>e. if e \<in> set es then None else T e)"
proof (induction es arbitrary: T)
  case Nil
  then show ?case by simp
next
  case (Cons a es)
  show ?case
    by (auto simp: Cons drop_table_def fun_eq_iff)
qed

lemma create_all_eq:
  "create_all es T = Inr (\<lambda>e. if e \<in> set es \<and> T e = None then Some [] else T e)"
proof (induction es arbitrary: T)
  case Nil
  then show ?case by simp
next
  case (Cons a es)
  show ?case
    by (auto simp: Cons create_table_def fun_eq_iff)
qed

lemma init_db_ok:
  "engine_fault w = None \<Longrightarrow>
   init_db w =
     (Inr (),
      w\<lparr>tables :=
          (\<lambda>e. if e \<in> set (metadata w) \<and> tables w e = None then Some [] else tables w e),
        logs := logs w @ [(INFO, ''Initializing database...''),
                          (INFO, ''Database initialized successfully'')]\<rparr>)"
  by (simp add: init_db_def metadata_create_all_def with_connection_def engine_connect_def
      connection_close_def create_all_eq io_defs cong: if_cong)

lemma init_db_fault:
  "engine_fault w = Some x \<Longrightarrow>
   init_db w = (Inl x, w\<lparr>logs := logs w @ [(INFO, ''Initializing database...'')]\<rparr>)"
  by (simp add: init_db_def metadata_create_all_def with_connection_def engine_connect_def
      io_defs)

lemma drop_db_ok:
  "engine_fault w = None \<Longrightarrow>
   drop_db w =
     (Inr (),
      w\<lparr>tables := (\<lambda>e. if e \<in> set (metadata w) then None else tables w e),
        logs := logs w @ [(WARNING, ''Dropping all database tables...''),
                          (WARNING, ''All tables dropped'')]\<rparr>)"
  by (simp add: drop_db_def metadata_drop_all_def with_connection_def engine_connect_def
      connection_close_def drop_all_eq io_defs cong: if_cong)

lemma drop_db_fault:
  "engine_fault w = Some x \<Longrightarrow>
   drop_db w =
     (Inl x, w\<lparr>logs := logs w @ [(WARNING, ''Dropping all database tables...'')]\<rparr>)"
  by (simp add: drop_db_def metadata_drop_all_def with_connection_def engine_connect_def
      io_defs)

subsection \<open>Lower case\<close>

lemma lower_char_y: "lower_char c = CHR ''y'' \<longleftrightarrow> c = CHR ''y'' \<or> c = CHR ''Y''"
  by (auto simp: lower_char_def)

lemma lower_char_e: "lower_char c = CHR ''e'' \<longleftrightarrow> c = CHR ''e'' \<or> c = CHR ''E''"
  by (auto simp: lower_char_def)

lemma lower_char_s: "lower_char c = CHR ''s'' \<longleftrightarrow> c = CHR ''s'' \<or> c = CHR ''S''"
  by (auto simp: lower_char_def)

lemma lower_eq_yes:
  "lower s = ''yes'' \<longleftrightarrow>
     s \<in> {''yes'', ''yeS'', ''yEs'', ''yES'', ''Yes'', ''YeS'', ''YEs'', ''YES''}"
proof -
  have "lower s = ''yes'' \<longleftrightarrow>
        (\<exists>a b c. s = [a, b, c] \<and> lower_char a = CHR ''y'' \<and> lower_char b = CHR ''e''
                 \<and> lower_char c = CHR ''s'')"
    by (auto simp: lower_def map_eq_Cons_conv)
  then show ?thesis
    unfolding lower_char_y lower_char_e lower_char_s by auto
qed

subsection \<open>Cascading deletes\<close>

lemma doomed_self: "(e, i) \<in> set (doomed T e i)"
  by (subst doomed.simps) simp

lemma doomed_closed:
  "(p, v) \<in> set (doomed T e i) \<Longrightarrow> fk \<in> set foreign_keys \<Longrightarrow> fk_parent fk = p \<Longrightarrow>
   r \<in> set (referencing T fk v) \<Longrightarrow> (fk_child fk, cell r ''id'') \<in> set (doomed T e i)"
proof (induction T e i rule: doomed.induct)
  case (1 T e i)
  from "1.prems"(1) consider "(p, v) = (e, i)"
    | fk' r' where "fk' \<in> set foreign_keys" "fk_parent fk' = e"
        "fk_ondelete fk' = Some CASCADE" "r' \<in> set (referencing T fk' i)"
        "(p, v) \<in> set (doomed T (fk_child fk') (cell r' ''id''))"
    by (subst (asm) doomed.simps) auto
  then show ?case
  proof cases
    case 1
    with "1.prems" have "fk_parent fk = e" "r \<in> set (referencing T fk i)"
      by simp_all
    moreover have "fk_ondelete fk = Some CASCADE"
      using "1.prems"(2) by (rule all_cascade)
    moreover have "(fk_child fk, cell r ''id'') \<in> set (doomed T (fk_child fk) (cell r ''id''))"
      by (rule doomed_self)
    ultimately show ?thesis
      using "1.prems"(2) by (subst doomed.simps) auto
  next
    case 2
    then have "(fk_child fk, cell r ''id'') \<in> set (doomed T (fk_child fk') (cell r' ''id''))"
      using "1.IH" [of fk' r'] "1.prems"(2,3,4) by simp
    with 2 show ?thesis
      by (subst doomed.simps) auto
  qed
qed

lemma rows_of_without:
  "rows_of (without D T) t = filter (\<lambda>r. (t, cell r ''id'') \<notin> set D) (rows_of T t)"
  by (simp add: rows_of_def without_def split: option.splits)

lemma delete_not_referenced:
  "\<not> still_referenced (doomed T e i) (without (doomed T e i) T)"
proof
  assume "still_referenced (doomed T e i) (without (doomed T e i) T)"
  then obtain fk r where fk: "fk \<in> set foreign_keys"
    and r: "r \<in> set (rows_of T (fk_child fk))"
    and stays: "(fk_child fk, cell r ''id'') \<notin> set (doomed T e i)"
    and nn: "cell r (fk_col fk) \<noteq> Null"
    and goes: "(fk_parent fk, cell r (fk_col fk)) \<in> set (doomed T e i)"
    by (auto simp: still_referenced_def rows_of_without)
  from r nn have "r \<in> set (referencing T fk (cell r (fk_col fk)))"
    by (simp add: referencing_def)
  with goes fk have "(fk_child fk, cell r ''id'') \<in> set (doomed T e i)"
    by (rule doomed_closed [OF _ _ refl])
  with stays show False
    by simp
qed

lemma delete_row_succeeds:
  "T e \<noteq> None \<Longrightarrow> delete_row e i T = Inr (without (doomed T e i) T)"
  by (auto simp: delete_row_def delete_not_referenced)

lemma orphan_free_without:
  assumes "orphan_free T"
  shows "orphan_free (without (doomed T e i) T)"
  unfolding orphan_free_def
proof (intro ballI conjI)
  fix fk r
  assume fk: "fk \<in> set foreign_keys"
    and r': "r \<in> set (rows_of (without (doomed T e i) T) (fk_child fk))"
  from r' have r: "r \<in> set (rows_of T (fk_child fk))"
    and stays: "(fk_child fk, cell r ''id'') \<notin> set (doomed T e i)"
    by (simp_all add: rows_of_without)
  from assms fk r show nn: "cell r (fk_col fk) \<noteq> Null"
    by (simp add: orphan_free_def)
  from assms fk r obtain p where p: "p \<in> set (rows_of T (fk_parent fk))"
    and eq: "cell p ''id'' = cell r (fk_col fk)"
    by (auto simp: orphan_free_def)
  have "(fk_parent fk, cell p ''id'') \<notin> set (doomed T e i)"
  proof
    assume "(fk_parent fk, cell p ''id'') \<in> set (doomed T e i)"
    moreover from r nn eq have "r \<in> set (referencing T fk (cell p ''id''))"
      by (simp add: referencing_def)
    ultimately have "(fk_child fk, cell r ''id'') \<in> set (doomed T e i)"
      using fk by (intro doomed_closed [OF _ _ refl])
    with stays show False
      by simp
  qed
  with p eq show "\<exists>p \<in> set (rows_of (without (doomed T e i) T) (fk_parent fk)).
                    cell p ''id'' = cell r (fk_col fk)"
    by (auto simp: rows_of_without)
qed

lemma insert_row_rows:
  "insert_row e r T = Inr T' \<Longrightarrow>
   rows_of T' t = (if t = e then rows_of T e @ [r] else rows_of T t)"
  by (auto simp: insert_row_def rows_of_def split: option.splits if_splits)

lemma insert_row_checks:
  "insert_row e r T = Inr T' \<Longrightarrow>
   not_null_ok e r \<and> unique_ok e r (rows_of T e) \<and> foreign_keys_ok e r T"
  by (auto simp: insert_row_def rows_of_def split: option.splits if_splits)

lemma orphan_free_insert:
  assumes "orphan_free T" and ins: "insert_row e r T = Inr T'"
  shows "orphan_free T'"
  unfolding orphan_free_def
proof (intro ballI)
  fix fk r'
  assume fk: "fk \<in> set foreign_keys" and r': "r' \<in> set (rows_of T' (fk_child fk))"
  have grows: "set (rows_of T t) \<subseteq> set (rows_of T' t)" for t
    by (auto simp: insert_row_rows [OF ins])
  from r' consider "r' \<in> set (rows_of T (fk_child fk))" | "r' = r" "fk_child fk = e"
    by (auto simp: insert_row_rows [OF ins] split: if_splits)
  then show "cell r' (fk_col fk) \<noteq> Null \<and>
             (\<exists>p \<in> set (rows_of T' (fk_parent fk)). cell p ''id'' = cell r' (fk_col fk))"
  proof cases
    case 1
    with assms(1) fk grows show ?thesis
      by (fastforce simp: orphan_free_def)
  next
    case 2
    from insert_row_checks [OF ins] have nn: "not_null_ok e r" and ok: "foreign_keys_ok e r T"
      by simp_all
    from fk 2 nn have "cell r (fk_col fk) \<noteq> Null"
      using fk_not_nullable by blast
    moreover from fk 2 have "fk \<in> set (foreign_keys_of e)"
      using foreign_keys_of_child by blast
    ultimately obtain p where "p \<in> set (rows_of T (fk_parent fk))"
      "cell p ''id'' = cell r (fk_col fk)"
      using ok by (auto simp: foreign_keys_ok_def)
    with grows 2 \<open>cell r (fk_col fk) \<noteq> Null\<close> show ?thesis
      by blast
  qed
qed

lemma reachable_invariant: "reachable T \<Longrightarrow> orphan_free T \<and> (\<forall>e. T e \<noteq> None)"
proof (induction rule: reachable.induct)
  case (created T)
  with all_models_complete created have "T = (\<lambda>e. Some [])"
    by (simp add: create_all_eq)
  then show ?case
    by (simp add: orphan_free_def rows_of_def)
next
  case (inserted T e r T')
  then have "orphan_free T'"
    using orphan_free_insert by blast
  moreover from inserted have "\<forall>t. T' t \<noteq> None"
    by (auto simp: insert_row_def split: option.splits if_splits)
  ultimately show ?case
    by simp
next
  case (deleted T e i T')
  then have "T' = without (doomed T e i) T"
    by (simp add: delete_row_succeeds)
  with deleted show ?case
    by (simp add: orphan_free_without) (simp add: without_def)
qed

lemma sample_store_reachable: "reachable sample_store"
proof -
  have 0: "reachable empty_schema"
    by (rule reachable.created) (simp add: create_all_eq empty_schema_def all_models_complete)
  have "insert_row User sample_user empty_schema = Inr (empty_schema(User \<mapsto> [sample_user]))"
    by (simp add: check_defs schema_defs empty_schema_def sample_user_def)
  with 0 have 1: "reachable (empty_schema(User \<mapsto> [sample_user]))"
    by (rule reachable.inserted)
  have "insert_row DataUpload sample_upload (empty_schema(User \<mapsto> [sample_user]))
        = Inr (empty_schema(User \<mapsto> [sample_user], DataUpload \<mapsto> [sample_upload]))"
    by (simp add: check_defs schema_defs empty_schema_def sample_user_def sample_upload_def)
  with 1 have 2: "reachable (empty_schema(User \<mapsto> [sample_user], DataUpload \<mapsto> [sample_upload]))"
    by (rule reachable.inserted)
  have "insert_row TimeSeriesData sample_point
          (empty_schema(User \<mapsto> [sample_user], DataUpload \<mapsto> [sample_upload]))
        = Inr sample_store"
    by (simp add: check_defs schema_defs empty_schema_def sample_upload_def sample_point_def
        sample_store_def)
  with 2 show ?thesis
    by (rule reachable.inserted)
qed


subsection \<open>Declared constraints\<close>

lemma distinct_filter_map_filter:
  "distinct (filter P (map f rs)) \<Longrightarrow> distinct (filter P (map f (filter Q rs)))"
  by (induction rs) auto

lemma distinct_snoc_value:
  "distinct (filter P (map f rs)) \<Longrightarrow> \<not> P (f r) \<or> (\<forall>r' \<in> set rs. f r' \<noteq> f r) \<Longrightarrow>
   distinct (filter P (map f (rs @ [r])))"
  by (induction rs) auto

lemma unique_once:
  "distinct (filter P (map f rs)) \<Longrightarrow> u \<in> set rs \<Longrightarrow> P (f u) \<Longrightarrow>
   length (filter (\<lambda>x. f x = f u) rs) = 1"
proof (induction rs)
  case Nil
  then show ?case by simp
next
  case (Cons a rs)
  show ?case
  proof (cases "f a = f u")
    case True
    with Cons.prems have "\<forall>x \<in> set rs. f x \<noteq> f u"
      by (auto simp: image_iff)
    then have "filter (\<lambda>x. f x = f u) rs = []"
      by (simp add: filter_empty_conv)
    with True show ?thesis
      by simp
  next
    case False
    with Cons.prems have "u \<in> set rs" "distinct (filter P (map f rs))"
      by (auto split: if_splits)
    with Cons.IH Cons.prems(3) False show ?thesis
      by simp
  qed
qed

lemma constraints_hold_insert:
  assumes "constraints_hold T" and ins: "insert_row e r T = Inr T'"
  shows "constraints_hold T'"
  unfolding constraints_hold_def
proof (intro allI conjI ballI)
  fix t r'
  assume "r' \<in> set (rows_of T' t)"
  with assms insert_row_checks [OF ins] show "not_null_ok t r'"
    by (auto simp: insert_row_rows [OF ins] constraints_hold_def split: if_splits)
next
  fix t c
  assume c: "c \<in> set (unique_columns t)"
  show "distinct (filter (\<lambda>v. v \<noteq> Null) (map (\<lambda>r. cell r c) (rows_of T' t)))"
  proof (cases "t = e")
    case True
    from insert_row_checks [OF ins] c True
    have "cell r c = Null \<or> (\<forall>r' \<in> set (rows_of T e). cell r' c \<noteq> cell r c)"
      by (simp add: unique_ok_def)
    moreover from assms(1) c True
    have "distinct (filter (\<lambda>v. v \<noteq> Null) (map (\<lambda>r. cell r c) (rows_of T e)))"
      by (simp add: constraints_hold_def)
    ultimately have "distinct (filter (\<lambda>v. v \<noteq> Null) (map (\<lambda>r. cell r c) (rows_of T e @ [r])))"
      by (intro distinct_snoc_value) auto
    with True show ?thesis
      by (simp add: insert_row_rows [OF ins])
  next
    case False
    with assms(1) c show ?thesis
      by (simp add: insert_row_rows [OF ins] constraints_hold_def)
  qed
qed

lemma constraints_hold_without:
  "constraints_hold T \<Longrightarrow> constraints_hold (without D T)"
  by (simp add: constraints_hold_def rows_of_without distinct_filter_map_filter)

lemma reachable_constraints: "reachable T \<Longrightarrow> constraints_hold T"
proof (induction rule: reachable.induct)
  case (created T)
  with all_models_complete have "T = (\<lambda>e. Some [])"
    by (simp add: create_all_eq)
  then show ?case
    by (simp add: constraints_hold_def rows_of_def)
next
  case (inserted T e r T')
  then show ?case
    using constraints_hold_insert by blast
next
  case (deleted T e i T')
  then have "T' = without (doomed T e i) T"
    by (auto simp: delete_row_def split: option.splits if_splits)
  with deleted show ?case
    by (simp add: constraints_hold_without)
qed

lemma unique_columns_User: "unique_columns User = [''id'', ''username'', ''email'']"
  by (simp add: unique_columns_def schema_defs)


subsection \<open>The bootstrap operation, case by case\<close>

lemmas session_defs = SessionLocal_def session_begin_def end_txn_def update_session_def
  view_def query_first_def add_def attrs_def session_insert_def flush_def commit_def
  rollback_def close_def new_session_def import_models_def

lemma fill_admin:
  "fill (columns User)
     [(''username'', Str ''admin''), (''email'', Str ''admin@financialanalytics.local''),
      (''hashed_password'', Str hashed), (''full_name'', Str ''System Administrator''),
      (''role'', Role ADMIN), (''is_active'', Bool True)] w =
   (Inr (admin_row hashed (uuids w (uuid_count w)) (clock w)),
    w\<lparr>uuid_count := uuid_count w + 1\<rparr>)"
  by (simp add: admin_row_def column_default_def schema_defs io_defs)

lemma create_admin_user_fault:
  "engine_fault w = Some x \<Longrightarrow> create_admin_user h w = failed x w (entered w)"
  by (simp add: create_admin_user_def failed_def entered_def session_defs io_defs)

lemma create_admin_user_no_table:
  "engine_fault w = None \<Longrightarrow> tables w User = None \<Longrightarrow>
   create_admin_user h w = failed (OperationalError ''no such table: users'') w (entered w)"
  by (simp add: create_admin_user_def failed_def entered_def session_defs io_defs)

lemma create_admin_user_existing:
  "engine_fault w = None \<Longrightarrow> tables w User = Some rs \<Longrightarrow> find is_admin rs = Some u \<Longrightarrow>
   create_admin_user h w =
     (Inr (Some u), (entered w)\<lparr>logs := logs w @ [(INFO, ''Admin user already exists'')]\<rparr>)"
  by (simp add: create_admin_user_def entered_def session_defs io_defs is_admin_def [abs_def])

lemma create_admin_user_hash_fails:
  "engine_fault w = None \<Longrightarrow> tables w User = Some rs \<Longrightarrow> find is_admin rs = None \<Longrightarrow>
   h ''admin123'' = Inl x \<Longrightarrow>
   create_admin_user h w = failed x w (entered w)"
  by (simp add: create_admin_user_def failed_def entered_def session_defs io_defs is_admin_def [abs_def])

lemma create_admin_user_insert_fails:
  "engine_fault w = None \<Longrightarrow> tables w User = Some rs \<Longrightarrow> find is_admin rs = None \<Longrightarrow>
   h ''admin123'' = Inr hashed \<Longrightarrow>
   insert_row User (admin_row hashed (uuids w (uuid_count w)) (clock w)) (tables w) = Inl x \<Longrightarrow>
   create_admin_user h w = failed x w ((entered w)\<lparr>uuid_count := uuid_count w + 1\<rparr>)"
  by (simp add: create_admin_user_def failed_def entered_def session_defs io_defs
      is_admin_def [abs_def] fill_admin del: columns.simps cong: option.case_cong)

lemma create_admin_user_created:
  "engine_fault w = None \<Longrightarrow> tables w User = Some rs \<Longrightarrow> find is_admin rs = None \<Longrightarrow>
   h ''admin123'' = Inr hashed \<Longrightarrow>
   insert_row User (admin_row hashed (uuids w (uuid_count w)) (clock w)) (tables w) = Inr T \<Longrightarrow>
   create_admin_user h w =
     (Inr (Some (admin_row hashed (uuids w (uuid_count w)) (clock w))),
      (entered w)
        \<lparr>tables := T, uuid_count := uuid_count w + 1,
         logs := logs w @
           [(SUCCESS, check_mark @ '' Admin user created successfully''),
            (INFO, ''  Username: admin''),
            (INFO, ''  Password: admin123''),
            (INFO, ''  Email: admin@financialanalytics.local'')]\<rparr>)"
  by (simp add: create_admin_user_def entered_def session_defs io_defs
      is_admin_def [abs_def] fill_admin del: columns.simps cong: option.case_cong)




lemma create_admin_user_cases:
  obtains
    (failed) x where "create_admin_user h w = failed x w (entered w)"
      "engine_fault w \<noteq> None \<or> tables w User = None \<or>
       (find is_admin (rows_of (tables w) User) = None \<and> h ''admin123'' = Inl x)"
  | (refused) x hashed where
      "create_admin_user h w = failed x w ((entered w)\<lparr>uuid_count := uuid_count w + 1\<rparr>)"
      "find is_admin (rows_of (tables w) User) = None" "h ''admin123'' = Inr hashed"
      "insert_row User (admin_row hashed (uuids w (uuid_count w)) (clock w)) (tables w) = Inl x"
  | (existing) u where "engine_fault w = None"
      "find is_admin (rows_of (tables w) User) = Some u"
      "create_admin_user h w =
         (Inr (Some u), (entered w)\<lparr>logs := logs w @ [(INFO, ''Admin user already exists'')]\<rparr>)"
  | (created) hashed T where "engine_fault w = None"
      "find is_admin (rows_of (tables w) User) = None" "h ''admin123'' = Inr hashed"
      "insert_row User (admin_row hashed (uuids w (uuid_count w)) (clock w)) (tables w) = Inr T"
      "create_admin_user h w =
         (Inr (Some (admin_row hashed (uuids w (uuid_count w)) (clock w))),
          (entered w)
            \<lparr>tables := T, uuid_count := uuid_count w + 1,
             logs := logs w @
               [(SUCCESS, check_mark @ '' Admin user created successfully''),
                (INFO, ''  Username: admin''),
                (INFO, ''  Password: admin123''),
                (INFO, ''  Email: admin@financialanalytics.local'')]\<rparr>)"
proof (cases "engine_fault w")
  case (Some x)
  then show ?thesis
    using failed [of x] by (simp add: create_admin_user_fault)
next
  case None
  note reach = this
  show ?thesis
  proof (cases "tables w User")
    case None
    with reach show ?thesis
      using failed [of "OperationalError ''no such table: users''"]
      by (simp add: create_admin_user_no_table)
  next
    case (Some rs)
    then have rows: "rows_of (tables w) User = rs"
      by (simp add: rows_of_def)
    show ?thesis
    proof (cases "find is_admin rs")
      case (Some u)
      with reach \<open>tables w User = Some rs\<close> rows show ?thesis
        using existing [of u] by (simp add: create_admin_user_existing)
    next
      case None
      note absent = this
      show ?thesis
      proof (cases "h ''admin123''")
        case (Inl x)
        with reach \<open>tables w User = Some rs\<close> rows absent show ?thesis
          using failed [of x] by (simp add: create_admin_user_hash_fails)
      next
        case (Inr hashed)
        note hashed = this
        show ?thesis
        proof (cases "insert_row User (admin_row hashed (uuids w (uuid_count w)) (clock w))
                        (tables w)")
          case (Inl x)
          with reach \<open>tables w User = Some rs\<close> rows absent hashed show ?thesis
            using refused [of x hashed] by (simp add: create_admin_user_insert_fails)
        next
          case (Inr T)
          with reach \<open>tables w User = Some rs\<close> rows absent hashed show ?thesis
            using created [of hashed T] by (simp add: create_admin_user_created)
        qed
      qed
    qed
  qed
qed

lemma entered_fields [simp]:
  "tables (entered w) = tables w" "engine_fault (entered w) = engine_fault w"
  "checked_out (entered w) = checked_out w" "uuids (entered w) = uuids w"
  "uuid_count (entered w) = uuid_count w" "clock (entered w) = clock w"
  "logs (entered w) = logs w" "raw_sql_fault (entered w) = raw_sql_fault w"
  by (simp_all add: entered_def)

lemma failed_fields [simp]:
  "fst (failed x w w') = Inr None" "tables (snd (failed x w w')) = tables w'"
  "engine_fault (snd (failed x w w')) = engine_fault w'"
  "checked_out (snd (failed x w w')) = checked_out w'"
  "logs (snd (failed x w w')) =
     logs w @ [(ERROR, ballot_x @ '' Failed to create admin user: '' @ str x)]"
  by (simp_all add: failed_def)


lemma sample_world_created:
  "create_admin_user sample_hash sample_world =
     (Inr (Some sample_admin),
      (entered sample_world)
        \<lparr>tables := sample_store(User \<mapsto> [sample_user, sample_admin]), uuid_count := 1,
         logs :=
           [(SUCCESS, check_mark @ '' Admin user created successfully''),
            (INFO, ''  Username: admin''),
            (INFO, ''  Password: admin123''),
            (INFO, ''  Email: admin@financialanalytics.local'')]\<rparr>)"
proof -
  have "insert_row User sample_admin sample_store =
          Inr (sample_store(User \<mapsto> [sample_user, sample_admin]))"
    by (simp add: check_defs schema_defs sample_store_def empty_schema_def sample_user_def
        sample_admin_def admin_row_def)
  moreover have "find is_admin [sample_user] = None"
    by (simp add: is_admin_def sample_user_def cell_def)
  moreover have "tables sample_world User = Some [sample_user]"
    by (simp add: sample_world_def sample_store_def)
  moreover have "uuids sample_world (uuid_count sample_world) = ''uuid-''"
    "clock sample_world = 0" "engine_fault sample_world = None" "logs sample_world = []"
    "uuid_count sample_world = 0" "tables sample_world = sample_store"
    by (simp_all add: sample_world_def)
  ultimately show ?thesis
    using create_admin_user_created [of sample_world "[sample_user]" sample_hash
        "''$2b$12$admin123''" "sample_store(User \<mapsto> [sample_user, sample_admin])"]
    by (simp add: sample_hash_def sample_admin_def)
qed


subsection \<open>What a unit of work keeps\<close>

lemma only_uuid_refl: "only_uuid w w"
  unfolding only_uuid_def by (rule exI [of _ "uuid_count w"]) simp

lemma only_uuid_trans: "only_uuid w w' \<Longrightarrow> only_uuid w' w'' \<Longrightarrow> only_uuid w w''"
  unfolding only_uuid_def by auto

lemma column_default_frame:
  "\<exists>v w'. column_default c w = (Inr v, w') \<and> only_uuid w w'"
proof (cases "col_default c")
  case None
  then show ?thesis
    by (simp add: column_default_def only_uuid_refl)
next
  case (Some d)
  then show ?thesis
    by (cases d) (auto simp: column_default_def only_uuid_refl, auto simp: only_uuid_def)
qed

lemma fill_frame: "\<exists>v w'. fill cs r w = (Inr v, w') \<and> only_uuid w w'"
proof (induction cs arbitrary: w)
  case Nil
  then show ?case
    by (simp add: ret_def only_uuid_refl)
next
  case (Cons c cs)
  have "\<exists>v0 w0. (case map_of r (col_name c) of Some v \<Rightarrow> ret v | None \<Rightarrow> column_default c) w
       = (Inr v0, w0) \<and> only_uuid w w0"
    using column_default_frame [of c w]
    by (cases "map_of r (col_name c)") (auto simp: ret_def only_uuid_refl)
  then obtain v0 w0 where first:
    "(case map_of r (col_name c) of Some v \<Rightarrow> ret v | None \<Rightarrow> column_default c) w
       = (Inr v0, w0)" and f0: "only_uuid w w0"
    by blast
  from Cons [of w0] obtain v1 w1 where rest: "fill cs r w0 = (Inr v1, w1)" and f1: "only_uuid w0 w1"
    by blast
  from first rest have "fill (c # cs) r w = (Inr ((col_name c, v0) # v1), w1)"
    by (simp add: andthen_def ret_def)
  with f0 f1 show ?case
    using only_uuid_trans by blast
qed

lemma preservesI: "(\<And>w. P w \<Longrightarrow> P (snd (m w))) \<Longrightarrow> preserves P m"
  by (simp add: preserves_def)

lemma preservesD: "preserves P m \<Longrightarrow> P w \<Longrightarrow> P (snd (m w))"
  by (simp add: preserves_def)

lemma preserves_ret: "preserves P (ret x)"
  by (simp add: preserves_def ret_def)

lemma preserves_raise: "preserves P (raise x)"
  by (simp add: preserves_def raise_def)

lemma preserves_andthen:
  "preserves P m \<Longrightarrow> (\<And>x. preserves P (f x)) \<Longrightarrow> preserves P (andthen m f)"
  by (auto simp: preserves_def andthen_def split: prod.splits sum.splits)

lemma preserves_try_except:
  "preserves P m \<Longrightarrow> (\<And>x. preserves P (h x)) \<Longrightarrow> preserves P (try_except m h)"
  by (auto simp: preserves_def try_except_def split: prod.splits sum.splits)

lemma preserves_try_finally:
  "preserves P m \<Longrightarrow> preserves P fin \<Longrightarrow> preserves P (try_finally m fin)"
  by (auto simp: preserves_def try_finally_def split: prod.splits sum.splits)

lemma preserves_fill:
  "(\<And>w w'. P w \<Longrightarrow> only_uuid w w' \<Longrightarrow> P w') \<Longrightarrow> preserves P (fill cs r)"
proof (rule preservesI)
  fix w
  assume frame: "\<And>w w'. P w \<Longrightarrow> only_uuid w w' \<Longrightarrow> P w'" and "P w"
  moreover from fill_frame [of cs r w] have "only_uuid w (snd (fill cs r w))"
    by auto
  ultimately show "P (snd (fill cs r w))"
    by blast
qed

lemma pooled_only_uuid: "pooled base db w \<Longrightarrow> only_uuid w w' \<Longrightarrow> pooled base db w'"
  by (auto simp: pooled_def held_def only_uuid_def)

lemma pooled_begin: "preserves (pooled base db) (session_begin db)"
  by (auto simp: preserves_def pooled_def held_def session_begin_def update_session_def
      split: option.splits)

lemma pooled_end_txn: "pooled base db w \<Longrightarrow> pooled base db (end_txn db w)"
  by (auto simp: pooled_def held_def end_txn_def update_session_def split: option.splits)

lemma txn_end_txn: "txn (sessions (end_txn db w) db) = None"
  by (auto simp: end_txn_def update_session_def split: option.splits)

lemma in_txn_only_uuid: "in_txn base db w \<Longrightarrow> only_uuid w w' \<Longrightarrow> in_txn base db w'"
  by (auto simp: in_txn_def pooled_def held_def only_uuid_def)

lemma in_txn_session_insert: "preserves (in_txn base db) (session_insert db e r)"
  by (auto simp: preserves_def in_txn_def pooled_def held_def session_insert_def
      update_session_def view_def split: option.splits sum.splits)

lemma in_txn_flush_from: "preserves (in_txn base db) (flush_from db i os)"
proof (induction os arbitrary: i)
  case Nil
  then show ?case
    by (simp add: preserves_ret)
next
  case (Cons ob os)
  obtain e r where ob: "ob = (e, r)"
    by (cases ob)
  have "preserves (in_txn base db)
          (\<lambda>w. (Inr (),
             update_session db
               (\<lambda>s. s\<lparr>objects := (objects s)[i := (e, filled)], flushed := Suc i\<rparr>) w))"
    for filled
    by (auto simp: preserves_def in_txn_def pooled_def held_def update_session_def)
  with Cons show ?case
    unfolding ob flush_from.simps
    by (intro preserves_andthen preserves_fill in_txn_session_insert)
      (auto intro: in_txn_only_uuid)
qed

lemma pooled_flush: "preserves (pooled base db) (flush db)"
proof (rule preservesI)
  fix w
  assume w: "pooled base db w"
  let ?pend = "drop (flushed (sessions w db)) (objects (sessions w db))"
  let ?m = "andthen (session_begin db) (\<lambda>_.
             try_except (flush_from db (flushed (sessions w db)) ?pend)
               (\<lambda>x w'. (Inl x, end_txn db w')))"
  have "pooled base db (snd (?m w))"
  proof (cases "session_begin db w")
    case (Pair res w1)
    from w have w1: "pooled base db w1"
      using preservesD [OF pooled_begin, of base db w] Pair by simp
    show ?thesis
    proof (cases res)
      case (Inl x)
      with Pair w1 show ?thesis
        by (simp add: andthen_def)
    next
      case (Inr u)
      with Pair have "txn (sessions w1 db) \<noteq> None"
        by (auto simp: session_begin_def update_session_def split: option.splits)
      with w1 have "in_txn base db w1"
        by (simp add: in_txn_def)
      then have "in_txn base db (snd (flush_from db (flushed (sessions w db)) ?pend w1))"
        by (rule preservesD [OF in_txn_flush_from])
      then have "pooled base db (snd (flush_from db (flushed (sessions w db)) ?pend w1))"
        by (simp add: in_txn_def)
      with Pair Inr show ?thesis
        by (auto simp: andthen_def try_except_def pooled_end_txn split: prod.splits sum.splits)
    qed
  qed
  with w show "pooled base db (snd (flush db w))"
    by (simp add: flush_def Let_def)
qed

lemma pooled_commit: "preserves (pooled base db) (commit db)"
proof -
  have "preserves (pooled base db) (\<lambda>w. (Inr (), end_txn db (w\<lparr>tables := view w db\<rparr>)))"
  proof (rule preservesI)
    fix w
    assume "pooled base db w"
    then have "pooled base db (w\<lparr>tables := view w db\<rparr>)"
      by (simp add: pooled_def held_def)
    then show "pooled base db (snd (Inr (), end_txn db (w\<lparr>tables := view w db\<rparr>)))"
      by (simp add: pooled_end_txn)
  qed
  then show ?thesis
    unfolding commit_def by (intro preserves_andthen pooled_flush)
qed

lemma pooled_rollback: "preserves (pooled base db) (rollback db)"
proof (rule preservesI)
  fix w
  assume "pooled base db w"
  then have "pooled base db (update_session db (\<lambda>s. s\<lparr>objects := [], flushed := 0\<rparr>) w)"
    by (simp add: pooled_def held_def update_session_def)
  then show "pooled base db (snd (rollback db w))"
    by (simp add: rollback_def pooled_end_txn)
qed

lemma pooled_exec: "preserves (pooled base db) (exec db s)"
proof (cases s)
  case (Add e r)
  have "preserves (pooled base db) (add db e r)"
    by (auto simp: preserves_def pooled_def held_def add_def update_session_def)
  with Add show ?thesis
    by (simp add: preserves_andthen preserves_ret)
next
  case (Query e c v)
  have "preserves (pooled base db)
          (\<lambda>w. case view w db e of
                 None \<Rightarrow> (Inl (OperationalError (''no such table: '' @ tablename e)), w)
               | Some rs \<Rightarrow> (Inr (find (\<lambda>r. cell r c = v) rs), w))"
    by (auto simp: preserves_def split: option.splits)
  with Query show ?thesis
    by (simp add: query_first_def preserves_andthen preserves_ret pooled_begin)
qed (simp_all add: pooled_flush pooled_commit pooled_rollback preserves_raise)

lemma pooled_run: "preserves (pooled base db) (run db ss)"
  by (induction ss) (simp_all add: preserves_ret preserves_andthen pooled_exec)

lemma stored_only_uuid: "stored T w \<Longrightarrow> only_uuid w w' \<Longrightarrow> stored T w'"
  by (auto simp: stored_def only_uuid_def)

lemma stored_end_txn: "stored T w \<Longrightarrow> stored T (end_txn db w)"
  by (auto simp: stored_def end_txn_def update_session_def split: option.splits)

lemma stored_flush_from: "preserves (stored T) (flush_from db i os)"
proof (induction os arbitrary: i)
  case Nil
  then show ?case
    by (simp add: preserves_ret)
next
  case (Cons ob os)
  obtain e r where ob: "ob = (e, r)"
    by (cases ob)
  have "preserves (stored T)
          (\<lambda>w. (Inr (),
             update_session db
               (\<lambda>s. s\<lparr>objects := (objects s)[i := (e, filled)], flushed := Suc i\<rparr>) w))"
    for filled
    by (auto simp: preserves_def stored_def update_session_def)
  moreover have "preserves (stored T) (session_insert db e filled)" for filled
    by (auto simp: preserves_def stored_def session_insert_def update_session_def
        split: sum.splits)
  ultimately show ?case
    using Cons unfolding ob flush_from.simps
    by (intro preserves_andthen preserves_fill) (auto intro: stored_only_uuid)
qed

lemma stored_begin: "preserves (stored T) (session_begin db)"
  by (auto simp: preserves_def stored_def session_begin_def update_session_def
      split: option.splits)

lemma stored_flush: "preserves (stored T) (flush db)"
proof (rule preservesI)
  fix w
  assume w: "stored T w"
  let ?pend = "drop (flushed (sessions w db)) (objects (sessions w db))"
  have "preserves (stored T)
          (andthen (session_begin db) (\<lambda>_.
             try_except (flush_from db (flushed (sessions w db)) ?pend)
               (\<lambda>x w'. (Inl x, end_txn db w'))))"
    by (intro preserves_andthen preserves_try_except stored_begin stored_flush_from)
      (simp add: preserves_def stored_end_txn)
  with w show "stored T (snd (flush db w))"
    by (auto simp: flush_def Let_def dest: preservesD)
qed

lemma stored_rollback: "preserves (stored T) (rollback db)"
  by (auto simp: preserves_def rollback_def stored_def end_txn_def update_session_def
      split: option.splits)

lemma stored_close: "preserves (stored T) (close db)"
  by (auto simp: preserves_def close_def stored_def end_txn_def update_session_def
      split: option.splits)

lemma stored_exec: "s \<noteq> Commit \<Longrightarrow> preserves (stored T) (exec db s)"
proof (cases s)
  case (Add e r)
  have "preserves (stored T) (add db e r)"
    by (auto simp: preserves_def stored_def add_def update_session_def)
  with Add show ?thesis
    by (simp add: preserves_andthen preserves_ret)
next
  case (Query e c v)
  have "preserves (stored T)
          (\<lambda>w. case view w db e of
                 None \<Rightarrow> (Inl (OperationalError (''no such table: '' @ tablename e)), w)
               | Some rs \<Rightarrow> (Inr (find (\<lambda>r. cell r c = v) rs), w))"
    by (auto simp: preserves_def split: option.splits)
  with Query show ?thesis
    by (simp add: query_first_def preserves_andthen preserves_ret stored_begin)
qed (simp_all add: stored_flush stored_rollback preserves_raise)

lemma stored_run: "Commit \<notin> set ss \<Longrightarrow> preserves (stored T) (run db ss)"
  by (induction ss) (auto simp: preserves_ret intro!: preserves_andthen stored_exec)

lemma pooled_close: "preserves (pooled base db) (close db)"
proof (rule preservesI)
  fix w
  assume "pooled base db w"
  then have "pooled base db (update_session db (\<lambda>s. s\<lparr>objects := [], flushed := 0\<rparr>) w)"
    by (simp add: pooled_def held_def update_session_def)
  then show "pooled base db (snd (close db w))"
    by (simp add: close_def pooled_end_txn)
qed

lemma pooled_logger: "preserves (pooled base db) (logger l m)"
  by (simp add: preserves_def pooled_def held_def logger_def)

lemma stored_logger: "preserves (stored T) (logger l m)"
  by (simp add: preserves_def stored_def logger_def)

lemma txn_close: "txn (sessions (snd (close db w)) db) = None"
  by (simp add: close_def txn_end_txn)

lemma logs_close: "logs (snd (close db w)) = logs w"
  by (auto simp: close_def end_txn_def update_session_def split: option.splits)

lemma logs_rollback: "logs (snd (rollback db w)) = logs w"
  by (auto simp: rollback_def end_txn_def update_session_def split: option.splits)

lemma run_append: "run db (xs @ ys) = andthen (run db xs) (\<lambda>_. run db ys)"
proof (induction xs)
  case Nil
  show ?case
    by (simp add: fun_eq_iff andthen_def ret_def)
next
  case (Cons x xs)
  then show ?case
    by (simp add: fun_eq_iff andthen_def split: prod.splits sum.splits)
qed

lemma get_db_eq:
  "get_db body w =
     (fst (body (session_count w) (snd (SessionLocal w))),
      unit_exit (session_count w) (body (session_count w) (snd (SessionLocal w))))"
  by (simp add: get_db_def unit_exit_def SessionLocal_def rollback_def close_def io_defs
      split: prod.splits sum.splits)

lemma unit_exit_pooled:
  "pooled base db (snd out) \<Longrightarrow> pooled base db (unit_exit db out)"
  by (auto simp: unit_exit_def split: prod.splits sum.splits
      intro!: preservesD [OF pooled_close] preservesD [OF pooled_logger]
        preservesD [OF pooled_rollback])

lemma unit_exit_stored:
  "stored T (snd out) \<Longrightarrow> stored T (unit_exit db out)"
  by (auto simp: unit_exit_def split: prod.splits sum.splits
      intro!: preservesD [OF stored_close] preservesD [OF stored_logger]
        preservesD [OF stored_rollback])

lemma unit_exit_txn: "txn (sessions (unit_exit db out) db) = None"
  by (auto simp: unit_exit_def txn_close split: prod.splits sum.splits)

lemma unit_exit_objects: "objects (sessions (unit_exit db out) db) = []"
  by (auto simp: unit_exit_def close_def end_txn_def update_session_def
      split: prod.splits sum.splits option.splits)

lemma unit_exit_logs:
  "fst out = Inl e \<Longrightarrow>
   logs (unit_exit db out) = logs (snd out) @ [(ERROR, ''Database session error: '' @ str e)]"
  by (auto simp: unit_exit_def logs_close logs_rollback logger_def
      split: prod.splits sum.splits)

lemma session_local_pooled:
  "pooled (checked_out w) (session_count w) (snd (SessionLocal w))"
  by (simp add: pooled_def held_def SessionLocal_def new_session_def)

lemma session_local_stored: "stored (tables w) (snd (SessionLocal w))"
  by (simp add: stored_def SessionLocal_def)

lemma get_db_raises:
  "body (session_count w) (snd (SessionLocal w)) = (Inl e, w') \<Longrightarrow>
   fst (get_db body w) = Inl e \<and>
   last (logs (snd (get_db body w))) = (ERROR, ''Database session error: '' @ str e)"
  by (simp add: get_db_eq unit_exit_logs)

lemma setup_database_ok:
  "engine_fault w = None \<Longrightarrow> fst (setup_database url w) = Inr True"
  by (simp add: setup_database_def init_db_ok io_defs)

lemma setup_database_fault:
  "engine_fault w = Some x \<Longrightarrow>
   reports (setup_database url) w False (ballot_x @ '' Database setup failed: '' @ str x)"
  by (simp add: reports_def setup_database_def init_db_fault io_defs)

lemma reset_database_ok:
  "engine_fault w = None \<Longrightarrow> lower confirm = ''yes'' \<Longrightarrow>
   fst (reset_database confirm w) = Inr True"
  by (simp add: reset_database_def drop_db_ok init_db_ok io_defs)

lemma reset_database_fault:
  "engine_fault w = Some x \<Longrightarrow> lower confirm = ''yes'' \<Longrightarrow>
   reports (reset_database confirm) w False (ballot_x @ '' Database reset failed: '' @ str x)"
  by (simp add: reports_def reset_database_def drop_db_fault io_defs)

lemma reset_database_cancelled:
  "lower confirm \<noteq> ''yes'' \<Longrightarrow>
   fst (reset_database confirm w) = Inr False \<and>
   last (logs (snd (reset_database confirm w))) = (INFO, ''Database reset cancelled'')"
  by (simp add: reset_database_def io_defs)

lemma check_database_connection_result:
  "fst (check_database_connection w) =
     Inr (engine_fault w = None \<and> raw_sql_fault w = None) \<and>
   checked_out (snd (check_database_connection w)) = checked_out w \<and>
   tables (snd (check_database_connection w)) = tables w \<and>
   (\<exists>m. logs (snd (check_database_connection w)) = logs w @ [m])"
  by (simp add: check_database_connection_def with_connection_def engine_connect_def
      connection_close_def execute_string_def io_defs split: option.splits)

lemma check_database_connection_fault:
  "engine_fault w = Some x \<Longrightarrow>
   reports check_database_connection w False
     (ballot_x @ '' Database connection failed: '' @ str x)"
  by (simp add: reports_def check_database_connection_def with_connection_def
      engine_connect_def io_defs)

lemma check_database_connection_refused:
  "engine_fault w = None \<Longrightarrow> raw_sql_fault w = Some y \<Longrightarrow>
   reports check_database_connection w False
     (ballot_x @ '' Database connection failed: '' @ str y)"
  by (simp add: reports_def check_database_connection_def with_connection_def
      engine_connect_def connection_close_def execute_string_def io_defs)

lemma reports_failed:
  "create_admin_user h w = failed x w w' \<Longrightarrow>
   reports (create_admin_user h) w None (ballot_x @ '' Failed to create admin user: '' @ str x)"
  by (simp add: reports_def)


section \<open>The cascade invariant\<close>

text \<open>
  C1. Each of the six foreign keys of the schema (DataUpload to User, TimeSeriesData to
  DataUpload, TrainedModel to User, Forecast, RiskMetrics and KPIReport to TrainedModel)
  is declared with \<^verbatim>\<open>ondelete="CASCADE"\<close>. So in every state the store can reach by
  inserts and deletes no child row is orphaned, and deleting any row succeeds, removes
  that row and every row that references it, and leaves a store without orphans.
\<close>

theorem cascade_delete_no_orphans:
  "reachable T \<Longrightarrow>
     map (\<lambda>fk. (fk_child fk, fk_parent fk, fk_ondelete fk)) foreign_keys =
       [(DataUpload, User, Some CASCADE), (TimeSeriesData, DataUpload, Some CASCADE),
        (TrainedModel, User, Some CASCADE), (Forecast, TrainedModel, Some CASCADE),
        (RiskMetrics, TrainedModel, Some CASCADE), (KPIReport, TrainedModel, Some CASCADE)] \<and>
     orphan_free T \<and>
     (\<exists>T'. delete_row e i T = Inr T' \<and>
           orphan_free T' \<and>
           (\<forall>t. set (rows_of T' t) \<subseteq> set (rows_of T t)) \<and>
           (\<forall>r \<in> set (rows_of T' e). cell r ''id'' \<noteq> i) \<and>
           (\<forall>fk \<in> set foreign_keys. fk_parent fk = e \<longrightarrow> referencing T' fk i = []))"
proof -
  assume "reachable T"
  then have free: "orphan_free T" and ex: "T e \<noteq> None"
    by (simp_all add: reachable_invariant)
  let ?D = "doomed T e i"
  have del: "delete_row e i T = Inr (without ?D T)"
    using ex by (rule delete_row_succeeds)
  have gone: "\<forall>r \<in> set (rows_of (without ?D T) e). cell r ''id'' \<noteq> i"
    using doomed_self [of e i T] by (auto simp: rows_of_without)
  have unref: "referencing (without ?D T) fk i = []"
    if "fk \<in> set foreign_keys" "fk_parent fk = e" for fk
  proof (rule ccontr)
    assume "referencing (without ?D T) fk i \<noteq> []"
    then obtain r where "r \<in> set (rows_of (without ?D T) (fk_child fk))"
      "i \<noteq> Null" "cell r (fk_col fk) = i"
      by (auto simp: referencing_def filter_empty_conv)
    with that doomed_self [of e i T] have "still_referenced ?D (without ?D T)"
      by (auto simp: still_referenced_def)
    then show False
      by (simp add: delete_not_referenced)
  qed
  have declared: "map (\<lambda>fk. (fk_child fk, fk_parent fk, fk_ondelete fk)) foreign_keys =
       [(DataUpload, User, Some CASCADE), (TimeSeriesData, DataUpload, Some CASCADE),
        (TrainedModel, User, Some CASCADE), (Forecast, TrainedModel, Some CASCADE),
        (RiskMetrics, TrainedModel, Some CASCADE), (KPIReport, TrainedModel, Some CASCADE)]"
    by (simp add: foreign_keys_eq)
  have "\<forall>t. set (rows_of (without ?D T) t) \<subseteq> set (rows_of T t)"
    by (auto simp: rows_of_without)
  with free del gone unref orphan_free_without [OF free, of e i] declared show ?thesis
    by blast
qed

text \<open>
  Deleting the sample user empties the uploads and the observations that hang on it.
\<close>

theorem cascade_delete_no_orphans_witness:
  "reachable sample_store \<and>
   rows_of sample_store DataUpload = [sample_upload] \<and>
   rows_of sample_store TimeSeriesData = [sample_point] \<and>
   (\<exists>T'. delete_row User (Str ''u-1'') sample_store = Inr T' \<and>
         rows_of T' User = [] \<and> rows_of T' DataUpload = [] \<and> rows_of T' TimeSeriesData = [])"
proof -
  from cascade_delete_no_orphans [OF sample_store_reachable, of User "Str ''u-1''"]
  obtain T' where del: "delete_row User (Str ''u-1'') sample_store = Inr T'"
    and free: "orphan_free T'"
    and sub: "\<And>t. set (rows_of T' t) \<subseteq> set (rows_of sample_store t)"
    and gone: "\<forall>r \<in> set (rows_of T' User). cell r ''id'' \<noteq> Str ''u-1''"
    by blast
  have rows: "rows_of sample_store User = [sample_user]"
    "rows_of sample_store DataUpload = [sample_upload]"
    "rows_of sample_store TimeSeriesData = [sample_point]"
    by (simp_all add: sample_store_def rows_of_def)
  have u: "rows_of T' User = []"
  proof (rule ccontr)
    assume "rows_of T' User \<noteq> []"
    then obtain r where r: "r \<in> set (rows_of T' User)"
      by (cases "rows_of T' User") auto
    with sub [of User] have "r = sample_user"
      by (auto simp: rows)
    moreover have "cell sample_user ''id'' = Str ''u-1''"
      by (simp add: sample_user_def cell_def)
    ultimately show False
      using gone r by auto
  qed
  have d: "rows_of T' DataUpload = []"
  proof (rule ccontr)
    assume "rows_of T' DataUpload \<noteq> []"
    then obtain r where r: "r \<in> set (rows_of T' DataUpload)"
      by (cases "rows_of T' DataUpload") auto
    with free have "\<exists>p \<in> set (rows_of T' User). cell p ''id'' = cell r ''user_id''"
      by (force simp: orphan_free_def foreign_keys_eq)
    with u show False
      by simp
  qed
  have t: "rows_of T' TimeSeriesData = []"
  proof (rule ccontr)
    assume "rows_of T' TimeSeriesData \<noteq> []"
    then obtain r where r: "r \<in> set (rows_of T' TimeSeriesData)"
      by (cases "rows_of T' TimeSeriesData") auto
    with free have "\<exists>p \<in> set (rows_of T' DataUpload). cell p ''id'' = cell r ''data_upload_id''"
      by (force simp: orphan_free_def foreign_keys_eq)
    with d show False
      by simp
  qed
  from sample_store_reachable rows del u d t show ?thesis
    by simp
qed


section \<open>The confirmation gate of \<^verbatim>\<open>reset_database\<close>\<close>

text \<open>
  C2, as the code has it. The answer is compared after \<^verbatim>\<open>lower()\<close>: when its lower
  case form is not \<^verbatim>\<open>yes\<close> the operation only logs (the warning, then the
  cancellation) and returns \<^verbatim>\<open>False\<close>, leaving the store and everything else as it
  was. When it is, which holds for exactly the eight spellings of \<^verbatim>\<open>yes\<close>, the
  registered tables are dropped and created again empty and the result is \<^verbatim>\<open>True\<close>, or,
  if the store cannot be reached, nothing is dropped and the result is \<^verbatim>\<open>False\<close>.
\<close>

theorem reset_database_gate:
  "(lower confirm \<noteq> ''yes'' \<longrightarrow>
      reset_database confirm w =
        (Inr False,
         w\<lparr>logs := logs w @
              [(WARNING, warning_sign @ ''  WARNING: This will DELETE all data from the database!''),
               (INFO, ''Database reset cancelled'')]\<rparr>)) \<and>
   (lower confirm = ''yes'' \<and> engine_fault w = None \<longrightarrow>
      fst (reset_database confirm w) = Inr True \<and>
      tables (snd (reset_database confirm w)) =
        (\<lambda>e. if e \<in> set (metadata w) then Some [] else tables w e)) \<and>
   (lower confirm = ''yes'' \<and> engine_fault w \<noteq> None \<longrightarrow>
      fst (reset_database confirm w) = Inr False \<and>
      tables (snd (reset_database confirm w)) = tables w) \<and>
   (lower confirm = ''yes'' \<longleftrightarrow>
      confirm \<in> {''yes'', ''yeS'', ''yEs'', ''yES'', ''Yes'', ''YeS'', ''YEs'', ''YES''})"
proof (intro conjI impI)
  assume "lower confirm \<noteq> ''yes''"
  then show "reset_database confirm w =
        (Inr False,
         w\<lparr>logs := logs w @
              [(WARNING, warning_sign @ ''  WARNING: This will DELETE all data from the database!''),
               (INFO, ''Database reset cancelled'')]\<rparr>)"
    by (simp add: reset_database_def io_defs)
next
  assume a: "lower confirm = ''yes'' \<and> engine_fault w = None"
  then show "fst (reset_database confirm w) = Inr True"
    by (simp add: reset_database_def drop_db_ok init_db_ok io_defs)
  from a show "tables (snd (reset_database confirm w)) =
        (\<lambda>e. if e \<in> set (metadata w) then Some [] else tables w e)"
    by (simp add: reset_database_def drop_db_ok init_db_ok io_defs fun_eq_iff)
next
  assume a: "lower confirm = ''yes'' \<and> engine_fault w \<noteq> None"
  then obtain x where x: "engine_fault w = Some x"
    by auto
  from a x show "fst (reset_database confirm w) = Inr False"
    by (simp add: reset_database_def drop_db_fault io_defs)
  from a x show "tables (snd (reset_database confirm w)) = tables w"
    by (simp add: reset_database_def drop_db_fault io_defs)
next
  show "lower confirm = ''yes'' \<longleftrightarrow>
      confirm \<in> {''yes'', ''yeS'', ''yEs'', ''yES'', ''Yes'', ''YeS'', ''YEs'', ''YES''}"
    by (rule lower_eq_yes)
qed

text \<open>The gate at the answers \<^verbatim>\<open>no\<close> and \<^verbatim>\<open>Yes\<close>.\<close>

theorem reset_database_gate_witness:
  "lower ''no'' \<noteq> ''yes'' \<and>
   fst (reset_database ''no'' sample_world) = Inr False \<and>
   tables (snd (reset_database ''no'' sample_world)) = sample_store \<and>
   lower ''Yes'' = ''yes'' \<and> engine_fault sample_world = None \<and>
   fst (reset_database ''Yes'' sample_world) = Inr True \<and>
   tables (snd (reset_database ''Yes'' sample_world)) User = Some []"
proof -
  have no: "lower ''no'' \<noteq> ''yes''" and yes: "lower ''Yes'' = ''yes''"
    by (simp_all add: lower_def lower_char_def)
  have reach: "engine_fault sample_world = None" and t: "tables sample_world = sample_store"
    and m: "User \<in> set (metadata sample_world)"
    by (simp_all add: sample_world_def all_models_def)
  from reset_database_gate [of "''no''" sample_world] no
  have "fst (reset_database ''no'' sample_world) = Inr False"
    "tables (snd (reset_database ''no'' sample_world)) = sample_store"
    by (simp_all add: t)
  moreover from reset_database_gate [of "''Yes''" sample_world] yes reach m
  have "fst (reset_database ''Yes'' sample_world) = Inr True"
    "tables (snd (reset_database ''Yes'' sample_world)) User = Some []"
    by simp_all
  ultimately show ?thesis
    using no yes reach by simp
qed

text \<open>
  The answer \<^verbatim>\<open>YES\<close> is not the literal token \<^verbatim>\<open>yes\<close>, and yet the users table
  loses its row.
\<close>

theorem reset_database_uppercase_counterexample:
  "''YES'' \<noteq> ''yes'' \<and>
   rows_of (tables sample_world) User = [sample_user] \<and>
   fst (reset_database ''YES'' sample_world) = Inr True \<and>
   rows_of (tables (snd (reset_database ''YES'' sample_world))) User = []"
proof -
  have "lower ''YES'' = ''yes''"
    by (simp add: lower_def lower_char_def)
  moreover have "engine_fault sample_world = None" "User \<in> set (metadata sample_world)"
    "rows_of (tables sample_world) User = [sample_user]"
    by (simp_all add: sample_world_def all_models_def sample_store_def rows_of_def)
  ultimately show ?thesis
    by (simp add: reset_database_def drop_db_ok init_db_ok io_defs rows_of_def)
qed


section \<open>The scoped session of \<^verbatim>\<open>get_db\<close>\<close>

text \<open>
  C3. Whatever the unit of work does with its session, \<^verbatim>\<open>get_db\<close> ends it the same
  way: its outcome is the unit's own (the error it raised is the error the caller gets),
  the session holds no connection and no object, the pool has as many connections out as
  before, and an error has been logged last. A unit of work without a commit leaves the
  committed store as it was, and so does one that raises before it commits: none of its
  writes is visible to a session made afterwards.
\<close>

theorem get_db_scoped_session:
  "fst (get_db (\<lambda>db. run db ss) w) = fst (run (session_count w) ss (snd (SessionLocal w))) \<and>
   checked_out (snd (get_db (\<lambda>db. run db ss) w)) = checked_out w \<and>
   txn (sessions (snd (get_db (\<lambda>db. run db ss) w)) (session_count w)) = None \<and>
   objects (sessions (snd (get_db (\<lambda>db. run db ss) w)) (session_count w)) = [] \<and>
   (\<forall>e. fst (get_db (\<lambda>db. run db ss) w) = Inl e \<longrightarrow>
        last (logs (snd (get_db (\<lambda>db. run db ss) w))) =
          (ERROR, ''Database session error: '' @ str e)) \<and>
   (Commit \<notin> set ss \<longrightarrow> tables (snd (get_db (\<lambda>db. run db ss) w)) = tables w) \<and>
   (\<forall>pre e post. ss = pre @ Raise e # post \<and> Commit \<notin> set pre \<longrightarrow>
        (\<exists>x. fst (get_db (\<lambda>db. run db ss) w) = Inl x) \<and>
        tables (snd (get_db (\<lambda>db. run db ss) w)) = tables w)"
proof -
  let ?db = "session_count w"
  let ?w1 = "snd (SessionLocal w)"
  let ?out = "run ?db ss ?w1"
  have eq: "get_db (\<lambda>db. run db ss) w = (fst ?out, unit_exit ?db ?out)"
    by (rule get_db_eq)
  have "pooled (checked_out w) ?db (snd ?out)"
    by (intro preservesD [OF pooled_run] session_local_pooled)
  then have "pooled (checked_out w) ?db (unit_exit ?db ?out)"
    by (rule unit_exit_pooled)
  then have pool: "checked_out (unit_exit ?db ?out) = checked_out w"
    by (simp add: pooled_def held_def unit_exit_txn)
  have keep: "tables (unit_exit ?db ?out) = tables w" if "Commit \<notin> set ss"
  proof -
    from that have "stored (tables w) (snd ?out)"
      by (intro preservesD [OF stored_run] session_local_stored)
    then have "stored (tables w) (unit_exit ?db ?out)"
      by (rule unit_exit_stored)
    then show ?thesis
      by (simp add: stored_def)
  qed
  have raised: "(\<exists>x. fst ?out = Inl x) \<and> tables (unit_exit ?db ?out) = tables w"
    if ss: "ss = pre @ Raise e # post" and pre: "Commit \<notin> set pre" for pre e post
  proof -
    let ?mid = "run ?db pre ?w1"
    from pre have mid: "stored (tables w) (snd ?mid)"
      by (intro preservesD [OF stored_run] session_local_stored)
    have out: "?out = (case ?mid of (Inl x, w') \<Rightarrow> (Inl x, w') | (Inr _, w') \<Rightarrow> (Inl e, w'))"
      by (simp add: ss run_append andthen_def raise_def split: prod.splits sum.splits)
    then have "\<exists>x. fst ?out = Inl x" and "snd ?out = snd ?mid"
      by (auto split: prod.splits sum.splits)
    with mid have "stored (tables w) (unit_exit ?db ?out)"
      by (intro unit_exit_stored) simp
    with \<open>\<exists>x. fst ?out = Inl x\<close> show ?thesis
      by (simp add: stored_def)
  qed
  have logged: "last (logs (unit_exit ?db ?out)) = (ERROR, ''Database session error: '' @ str e)"
    if "fst ?out = Inl e" for e
    using that by (simp add: unit_exit_logs)
  have res: "fst (get_db (\<lambda>db. run db ss) w) = fst ?out"
    and fin: "snd (get_db (\<lambda>db. run db ss) w) = unit_exit ?db ?out"
    by (simp_all add: eq)
  show ?thesis
    unfolding res fin
    using pool keep raised logged unit_exit_txn [of ?db ?out] unit_exit_objects [of ?db ?out]
    by blast
qed

text \<open>A trained model is added and flushed, then the unit of work raises.\<close>

theorem get_db_scoped_session_witness:
  "failing_unit = [Add TrainedModel model_a, Flush] @ Raise (Exception ''training failed'') # [] \<and>
   Commit \<notin> set [Add TrainedModel model_a, Flush] \<and>
   (\<exists>x. fst (get_db (\<lambda>db. run db failing_unit) sample_world) = Inl x \<and>
        last (logs (snd (get_db (\<lambda>db. run db failing_unit) sample_world))) =
          (ERROR, ''Database session error: '' @ str x)) \<and>
   tables (snd (get_db (\<lambda>db. run db failing_unit) sample_world)) = sample_store \<and>
   rows_of sample_store TrainedModel = [] \<and>
   checked_out (snd (get_db (\<lambda>db. run db failing_unit) sample_world)) = 0"
proof -
  have split: "failing_unit =
      [Add TrainedModel model_a, Flush] @ Raise (Exception ''training failed'') # []"
    and pre: "Commit \<notin> set [Add TrainedModel model_a, Flush]"
    by (simp_all add: failing_unit_def)
  have w: "tables sample_world = sample_store" "checked_out sample_world = 0"
    and empty: "rows_of sample_store TrainedModel = []"
    by (simp_all add: sample_world_def sample_store_def empty_schema_def rows_of_def)
  from get_db_scoped_session [of failing_unit sample_world] split pre
  obtain x where "fst (get_db (\<lambda>db. run db failing_unit) sample_world) = Inl x"
    "tables (snd (get_db (\<lambda>db. run db failing_unit) sample_world)) = tables sample_world"
    "checked_out (snd (get_db (\<lambda>db. run db failing_unit) sample_world)) =
       checked_out sample_world"
    "last (logs (snd (get_db (\<lambda>db. run db failing_unit) sample_world))) =
          (ERROR, ''Database session error: '' @ str x)"
    by blast
  with split pre w empty show ?thesis
    by auto
qed


section \<open>Uniqueness of user names and email addresses\<close>

text \<open>
  C4. \<^verbatim>\<open>username\<close> and \<^verbatim>\<open>email\<close> are declared \<^verbatim>\<open>unique=True\<close>, so the store itself
  refuses a second user with the name or the address of a user it holds: the insert
  fails with an integrity error, and the store keeps exactly one row with that name and
  exactly one with that address.
\<close>

theorem user_username_email_unique:
  "reachable T \<Longrightarrow> u \<in> set (rows_of T User) \<Longrightarrow>
   cell r ''username'' = cell u ''username'' \<or> cell r ''email'' = cell u ''email'' \<Longrightarrow>
     (\<exists>m. insert_row User r T = Inl (IntegrityError m)) \<and>
     length (filter (\<lambda>x. cell x ''username'' = cell u ''username'') (rows_of T User)) = 1 \<and>
     length (filter (\<lambda>x. cell x ''email'' = cell u ''email'') (rows_of T User)) = 1 \<and>
     unique_columns User = [''id'', ''username'', ''email'']"
proof -
  assume reach: "reachable T" and u: "u \<in> set (rows_of T User)"
    and same: "cell r ''username'' = cell u ''username'' \<or> cell r ''email'' = cell u ''email''"
  from reach have inv: "constraints_hold T"
    by (rule reachable_constraints)
  from inv u have "not_null_ok User u"
    by (simp add: constraints_hold_def)
  then have nn: "cell u ''username'' \<noteq> Null" "cell u ''email'' \<noteq> Null"
    by (simp_all add: not_null_ok_def schema_defs)
  from u obtain rs where rs: "T User = Some rs" "u \<in> set rs"
    by (cases "T User") (auto simp: rows_of_def)
  have "\<not> unique_ok User r rs"
    using same nn rs(2) by (auto simp: unique_ok_def unique_columns_User)
  then have fails: "\<exists>m. insert_row User r T = Inl (IntegrityError m)"
    by (simp add: insert_row_def rs)
  from inv have "distinct (filter (\<lambda>v. v \<noteq> Null) (map (\<lambda>r. cell r ''username'') (rows_of T User)))"
    "distinct (filter (\<lambda>v. v \<noteq> Null) (map (\<lambda>r. cell r ''email'') (rows_of T User)))"
    by (simp_all add: constraints_hold_def unique_columns_User)
  with u nn have "length (filter (\<lambda>x. cell x ''username'' = cell u ''username'') (rows_of T User)) = 1"
    "length (filter (\<lambda>x. cell x ''email'' = cell u ''email'') (rows_of T User)) = 1"
    using unique_once [of "\<lambda>v. v \<noteq> Null" "\<lambda>r. cell r ''username''" "rows_of T User" u]
      unique_once [of "\<lambda>v. v \<noteq> Null" "\<lambda>r. cell r ''email''" "rows_of T User" u]
    by simp_all
  with fails show ?thesis
    by (simp add: unique_columns_User)
qed

text \<open>A second \<^verbatim>\<open>bob\<close>, with an id and an address of his own, is refused.\<close>

theorem user_username_email_unique_witness:
  "reachable sample_store \<and> sample_user \<in> set (rows_of sample_store User) \<and>
   cell second_bob ''username'' = cell sample_user ''username'' \<and>
   cell second_bob ''id'' \<noteq> cell sample_user ''id'' \<and>
   (\<exists>m. insert_row User second_bob sample_store = Inl (IntegrityError m)) \<and>
   length (filter (\<lambda>x. cell x ''username'' = Str ''bob'') (rows_of sample_store User)) = 1"
proof -
  have u: "sample_user \<in> set (rows_of sample_store User)"
    by (simp add: sample_store_def rows_of_def)
  have same: "cell second_bob ''username'' = cell sample_user ''username''"
    and other: "cell second_bob ''id'' \<noteq> cell sample_user ''id''"
    and bob: "cell sample_user ''username'' = Str ''bob''"
    by (simp_all add: second_bob_def sample_user_def cell_def)
  from user_username_email_unique [OF sample_store_reachable u, of second_bob] same
  have "\<exists>m. insert_row User second_bob sample_store = Inl (IntegrityError m)"
    "length (filter (\<lambda>x. cell x ''username'' = cell sample_user ''username'')
       (rows_of sample_store User)) = 1"
    by simp_all
  with sample_store_reachable u same other bob show ?thesis
    by simp
qed


section \<open>Versions of trained models\<close>

text \<open>
  C5, as the code has it. \<^verbatim>\<open>version\<close> is an integer column that may not be empty and
  is 1 when the caller does not set it. \<^verbatim>\<open>id\<close> is the only unique column of the table
  and \<^verbatim>\<open>__table_args__\<close> holds plain indexes only. So the uniqueness check the store
  makes on a new trained model compares ids and nothing else: the row passes it exactly
  when its id is unset or new, whatever owner, name and version the stored rows have,
  and an insert refused for uniqueness has met its own id in the table.
\<close>

theorem trained_model_unique_on_id_only:
  "(unique_ok TrainedModel r rs \<longleftrightarrow>
      cell r ''id'' = Null \<or> (\<forall>r' \<in> set rs. cell r' ''id'' \<noteq> cell r ''id'')) \<and>
   (insert_row TrainedModel r T = Inl (IntegrityError ''UNIQUE constraint failed'') \<longrightarrow>
      (\<exists>r' \<in> set (rows_of T TrainedModel). cell r' ''id'' = cell r ''id'')) \<and>
   (not_null_ok TrainedModel r \<longrightarrow> cell r ''version'' \<noteq> Null) \<and>
   unique_columns TrainedModel = [''id''] \<and>
   filter (\<lambda>c. col_name c = ''version'') (columns TrainedModel) =
     [(Column ''version'' Integer)
        \<lparr>col_default := Some (Const (Num 1)), col_nullable := False\<rparr>] \<and>
   (\<forall>a \<in> set (table_args TrainedModel). \<exists>n cs. a = Index n cs)"
proof -
  have cols: "unique_columns TrainedModel = [''id'']"
    by (simp add: unique_columns_def schema_defs)
  have args: "\<forall>a \<in> set (table_args TrainedModel). \<exists>n cs. a = Index n cs"
    by simp
  have check: "unique_ok TrainedModel r rs \<longleftrightarrow>
      cell r ''id'' = Null \<or> (\<forall>r' \<in> set rs. cell r' ''id'' \<noteq> cell r ''id'')" for rs
    by (simp add: unique_ok_def cols)
  have refused: "insert_row TrainedModel r T = Inl (IntegrityError ''UNIQUE constraint failed'') \<longrightarrow>
      (\<exists>r' \<in> set (rows_of T TrainedModel). cell r' ''id'' = cell r ''id'')"
    by (cases "T TrainedModel")
      (auto simp: insert_row_def rows_of_def check split: if_splits)
  have version: "not_null_ok TrainedModel r \<longrightarrow> cell r ''version'' \<noteq> Null"
    by (simp add: not_null_ok_def schema_defs)
  have decl: "filter (\<lambda>c. col_name c = ''version'') (columns TrainedModel) =
     [(Column ''version'' Integer)
        \<lparr>col_default := Some (Const (Num 1)), col_nullable := False\<rparr>]"
    by (simp add: schema_defs)
  from check [of rs] refused version cols decl args show ?thesis
    by blast
qed

text \<open>
  A second trained model with the owner, name and version of the one stored passes the
  uniqueness check; the stored one, inserted again, is refused for its id.
\<close>

theorem trained_model_unique_on_id_only_witness:
  "map (cell model_a) [''user_id'', ''model_name'', ''version''] =
     map (cell model_b) [''user_id'', ''model_name'', ''version''] \<and>
   cell model_b ''id'' \<noteq> Null \<and> cell model_a ''id'' \<noteq> cell model_b ''id'' \<and>
   unique_ok TrainedModel model_b [model_a] \<and>
   insert_row TrainedModel model_a (sample_store(TrainedModel \<mapsto> [model_a])) =
     Inl (IntegrityError ''UNIQUE constraint failed'') \<and>
   (\<exists>r' \<in> set (rows_of (sample_store(TrainedModel \<mapsto> [model_a])) TrainedModel).
      cell r' ''id'' = cell model_a ''id'') \<and>
   not_null_ok TrainedModel model_b \<and> cell model_b ''version'' = Num 1"
proof -
  have ids: "cell model_b ''id'' \<noteq> Null" "cell model_a ''id'' \<noteq> cell model_b ''id''"
    and same: "map (cell model_a) [''user_id'', ''model_name'', ''version''] =
     map (cell model_b) [''user_id'', ''model_name'', ''version'']"
    and v: "cell model_b ''version'' = Num 1"
    by (simp_all add: model_a_def model_b_def cell_def)
  have nn: "not_null_ok TrainedModel model_b"
    by (simp add: not_null_ok_def model_b_def cell_def schema_defs)
  have again: "insert_row TrainedModel model_a (sample_store(TrainedModel \<mapsto> [model_a])) =
     Inl (IntegrityError ''UNIQUE constraint failed'')"
    by (simp add: check_defs schema_defs model_a_def)
  from ids have fresh: "cell model_b ''id'' = Null \<or>
      (\<forall>r' \<in> set [model_a]. cell r' ''id'' \<noteq> cell model_b ''id'')"
    by simp
  note on_b = trained_model_unique_on_id_only
    [of model_b "[model_a]" "sample_store(TrainedModel \<mapsto> [model_a])"]
  note on_a = trained_model_unique_on_id_only
    [of model_a "[model_a]" "sample_store(TrainedModel \<mapsto> [model_a])"]
  from on_b fresh have ok: "unique_ok TrainedModel model_b [model_a]"
    by blast
  from on_a again
  have clash: "\<exists>r' \<in> set (rows_of (sample_store(TrainedModel \<mapsto> [model_a])) TrainedModel).
      cell r' ''id'' = cell model_a ''id''"
    by blast
  from same ids ok again clash nn v show ?thesis
    by blast
qed

text \<open>
  Two trained models of one owner under one name are both stored with version 1.
\<close>

theorem trained_model_duplicate_version_counterexample:
  "reachable sample_store \<and>
   insert_row TrainedModel model_a sample_store =
     Inr (sample_store(TrainedModel \<mapsto> [model_a])) \<and>
   insert_row TrainedModel model_b (sample_store(TrainedModel \<mapsto> [model_a])) =
     Inr (sample_store(TrainedModel \<mapsto> [model_a, model_b])) \<and>
   model_a \<noteq> model_b \<and>
   map (cell model_a) [''user_id'', ''model_name'', ''version''] =
     [Str ''u-1'', Str ''revenue'', Num 1] \<and>
   map (cell model_b) [''user_id'', ''model_name'', ''version''] =
     [Str ''u-1'', Str ''revenue'', Num 1]"
proof -
  have "insert_row TrainedModel model_a sample_store =
     Inr (sample_store(TrainedModel \<mapsto> [model_a]))"
    by (simp add: check_defs schema_defs sample_store_def empty_schema_def sample_user_def
        model_a_def)
  moreover have "insert_row TrainedModel model_b (sample_store(TrainedModel \<mapsto> [model_a])) =
     Inr (sample_store(TrainedModel \<mapsto> [model_a, model_b]))"
    by (simp add: check_defs schema_defs sample_store_def empty_schema_def sample_user_def
        model_a_def model_b_def)
  moreover have "model_a \<noteq> model_b"
    by (simp add: model_a_def model_b_def)
  moreover have "map (cell model_a) [''user_id'', ''model_name'', ''version''] =
     [Str ''u-1'', Str ''revenue'', Num 1]"
    "map (cell model_b) [''user_id'', ''model_name'', ''version''] =
     [Str ''u-1'', Str ''revenue'', Num 1]"
    by (simp_all add: model_a_def model_b_def cell_def)
  ultimately show ?thesis
    using sample_store_reachable by simp
qed


section \<open>Idempotence of \<^verbatim>\<open>init_db\<close>\<close>

text \<open>
  C6. When \<^verbatim>\<open>init_db\<close> has returned, calling it again returns as well and leaves
  the same tables. After the first call every registered table exists (all seven once
  the models are registered), and a table that existed before keeps its rows: tables are
  created only where absent.
\<close>

theorem init_db_idempotent:
  "fst (init_db w) = Inr () \<Longrightarrow>
     fst (init_db (snd (init_db w))) = Inr () \<and>
     tables (snd (init_db (snd (init_db w)))) = tables (snd (init_db w)) \<and>
     (\<forall>e \<in> set (metadata w). tables (snd (init_db w)) e \<noteq> None) \<and>
     (\<forall>e rs. tables w e = Some rs \<longrightarrow> tables (snd (init_db w)) e = Some rs) \<and>
     (metadata w = all_models \<longrightarrow> (\<forall>e. tables (snd (init_db w)) e \<noteq> None))"
proof (cases "engine_fault w")
  case None
  then show ?thesis
    using all_models_complete by (auto simp: init_db_ok fun_eq_iff)
next
  case (Some x)
  assume "fst (init_db w) = Inr ()"
  then show ?thesis
    by (simp add: init_db_fault Some)
qed

text \<open>On the store that only has the users table, with its row.\<close>

theorem init_db_idempotent_witness:
  "fst (init_db bare_world) = Inr () \<and>
   fst (init_db (snd (init_db bare_world))) = Inr () \<and>
   tables (snd (init_db (snd (init_db bare_world)))) = tables (snd (init_db bare_world)) \<and>
   tables bare_world Forecast = None \<and>
   tables (snd (init_db bare_world)) Forecast = Some [] \<and>
   tables (snd (init_db bare_world)) User = Some [sample_user]"
proof -
  have ok: "fst (init_db bare_world) = Inr ()"
    by (simp add: init_db_ok bare_world_def sample_world_def)
  have "tables bare_world User = Some [sample_user]" "tables bare_world Forecast = None"
    by (simp_all add: bare_world_def)
  moreover have "tables (snd (init_db bare_world)) Forecast = Some []"
    by (simp add: init_db_ok bare_world_def sample_world_def all_models_def)
  ultimately show ?thesis
    using init_db_idempotent [OF ok] ok by simp
qed


section \<open>The bootstrap administrator\<close>





section \<open>How failures are reported\<close>

text \<open>
  C8, as the code has it. \<^verbatim>\<open>get_db\<close> logs the error of the unit of work and raises
  it again; \<^verbatim>\<open>init_db\<close> and \<^verbatim>\<open>drop_db\<close> let the engine's error through, and
  \<^verbatim>\<open>reset_database\<close> lets through an error of \<^verbatim>\<open>input\<close>, which it calls before
  its \<^verbatim>\<open>try\<close>. A failure inside a \<^verbatim>\<open>try\<close> of \<^verbatim>\<open>db_init.py\<close> is caught, logged
  with its message as the last line, and reported in the result. When the store cannot be
  reached, \<^verbatim>\<open>setup_database\<close>, the confirmed \<^verbatim>\<open>reset_database\<close> and
  \<^verbatim>\<open>check_database_connection\<close> return \<^verbatim>\<open>False\<close> and
  \<^verbatim>\<open>create_admin_user\<close> returns \<^verbatim>\<open>None\<close>; on a store that can be reached the
  probe returns \<^verbatim>\<open>False\<close> when the statement is refused, and
  \<^verbatim>\<open>create_admin_user\<close> returns \<^verbatim>\<open>None\<close> when the users table is missing, the
  hashing capability raises or the insert is refused. The booleans are exact:
  \<^verbatim>\<open>True\<close> is returned when nothing failed, and only then. Whenever
  \<^verbatim>\<open>create_admin_user\<close> returns \<^verbatim>\<open>None\<close> the store is as before (no half-created
  user), the connection is back in the pool and the failure has been logged last.
\<close>

theorem failures_logged_then_raised_or_reported:
  "(body (session_count w) (snd (SessionLocal w)) = (Inl e, w') \<longrightarrow>
      fst (get_db body w) = Inl e \<and>
      last (logs (snd (get_db body w))) = (ERROR, ''Database session error: '' @ str e)) \<and>
   (engine_fault w = Some x \<longrightarrow>
      fst (init_db w) = Inl x \<and> fst (drop_db w) = Inl x \<and>
      reports (setup_database url) w False
        (ballot_x @ '' Database setup failed: '' @ str x) \<and>
      (lower confirm = ''yes'' \<longrightarrow>
         reports (reset_database_prompt (Inr confirm)) w False
           (ballot_x @ '' Database reset failed: '' @ str x)) \<and>
      reports check_database_connection w False
        (ballot_x @ '' Database connection failed: '' @ str x) \<and>
      reports (create_admin_user h) w None
        (ballot_x @ '' Failed to create admin user: '' @ str x)) \<and>
   (engine_fault w = None \<longrightarrow>
      (raw_sql_fault w = Some y \<longrightarrow>
         reports check_database_connection w False
           (ballot_x @ '' Database connection failed: '' @ str y)) \<and>
      (tables w User = None \<longrightarrow>
         reports (create_admin_user h) w None
           (ballot_x @ '' Failed to create admin user: no such table: users'')) \<and>
      (tables w User \<noteq> None \<longrightarrow> find is_admin (rows_of (tables w) User) = None \<longrightarrow>
       h ''admin123'' = Inl y \<longrightarrow>
         reports (create_admin_user h) w None
           (ballot_x @ '' Failed to create admin user: '' @ str y)) \<and>
      (find is_admin (rows_of (tables w) User) = None \<longrightarrow> h ''admin123'' = Inr hashed \<longrightarrow>
       insert_row User (admin_row hashed (uuids w (uuid_count w)) (clock w)) (tables w) =
         Inl y \<longrightarrow>
         reports (create_admin_user h) w None
           (ballot_x @ '' Failed to create admin user: '' @ str y))) \<and>
   fst (setup_database url w) = Inr (engine_fault w = None) \<and>
   fst (reset_database_prompt (Inr confirm) w) =
     Inr (lower confirm = ''yes'' \<and> engine_fault w = None) \<and>
   fst (reset_database_prompt (Inl x') w) = Inl x' \<and>
   fst (check_database_connection w) =
     Inr (engine_fault w = None \<and> raw_sql_fault w = None) \<and>
   (\<exists>r. fst (create_admin_user h w) = Inr r) \<and>
   (fst (create_admin_user h w) = Inr None \<longrightarrow>
      tables (snd (create_admin_user h w)) = tables w \<and>
      checked_out (snd (create_admin_user h w)) = checked_out w \<and>
      (\<exists>y. last (logs (snd (create_admin_user h w))) =
             (ERROR, ballot_x @ '' Failed to create admin user: '' @ str y)))"
proof -
  have raised: "body (session_count w) (snd (SessionLocal w)) = (Inl e, w') \<longrightarrow>
      fst (get_db body w) = Inl e \<and>
      last (logs (snd (get_db body w))) = (ERROR, ''Database session error: '' @ str e)"
    using get_db_raises [of body w e w'] by simp
  have down: "engine_fault w = Some x \<longrightarrow>
      fst (init_db w) = Inl x \<and> fst (drop_db w) = Inl x \<and>
      reports (setup_database url) w False
        (ballot_x @ '' Database setup failed: '' @ str x) \<and>
      (lower confirm = ''yes'' \<longrightarrow>
         reports (reset_database_prompt (Inr confirm)) w False
           (ballot_x @ '' Database reset failed: '' @ str x)) \<and>
      reports check_database_connection w False
        (ballot_x @ '' Database connection failed: '' @ str x) \<and>
      reports (create_admin_user h) w None
        (ballot_x @ '' Failed to create admin user: '' @ str x)"
    using setup_database_fault [of w x url] reset_database_fault [of w x confirm]
      check_database_connection_fault [of w x]
      reports_failed [OF create_admin_user_fault, of w x h]
    by (simp add: init_db_fault drop_db_fault reset_database_prompt_def)
  have refused: "engine_fault w = None \<longrightarrow> raw_sql_fault w = Some y \<longrightarrow>
         reports check_database_connection w False
           (ballot_x @ '' Database connection failed: '' @ str y)"
    using check_database_connection_refused [of w y] by blast
  have no_table: "engine_fault w = None \<longrightarrow> tables w User = None \<longrightarrow>
         reports (create_admin_user h) w None
           (ballot_x @ '' Failed to create admin user: no such table: users'')"
    using reports_failed [OF create_admin_user_no_table, of w h] by simp
  have no_hash: "engine_fault w = None \<longrightarrow> tables w User \<noteq> None \<longrightarrow>
       find is_admin (rows_of (tables w) User) = None \<longrightarrow> h ''admin123'' = Inl y \<longrightarrow>
         reports (create_admin_user h) w None
           (ballot_x @ '' Failed to create admin user: '' @ str y)"
    using reports_failed [OF create_admin_user_hash_fails, of w _ h y]
    by (auto simp: rows_of_def)
  have no_insert: "engine_fault w = None \<longrightarrow>
       find is_admin (rows_of (tables w) User) = None \<longrightarrow> h ''admin123'' = Inr hashed \<longrightarrow>
       insert_row User (admin_row hashed (uuids w (uuid_count w)) (clock w)) (tables w) =
         Inl y \<longrightarrow>
         reports (create_admin_user h) w None
           (ballot_x @ '' Failed to create admin user: '' @ str y)"
  proof (cases "tables w User")
    case None
    then show ?thesis
      using no_table by (auto simp: insert_row_def)
  next
    case (Some rs)
    then show ?thesis
      using reports_failed [OF create_admin_user_insert_fails, of w rs h hashed y]
      by (simp add: rows_of_def)
  qed
  have set_up: "fst (setup_database url w) = Inr (engine_fault w = None)"
    using setup_database_ok [of w url] setup_database_fault [of w _ url]
    by (cases "engine_fault w") (simp_all add: reports_def)
  have reset: "fst (reset_database_prompt (Inr confirm) w) =
     Inr (lower confirm = ''yes'' \<and> engine_fault w = None)"
    using reset_database_ok [of w confirm] reset_database_fault [of w _ confirm]
      reset_database_cancelled [of confirm w]
    by (cases "engine_fault w"; cases "lower confirm = ''yes''")
      (simp_all add: reports_def reset_database_prompt_def)
  have prompt: "fst (reset_database_prompt (Inl x') w) = Inl x'"
    by (simp add: reset_database_prompt_def io_defs)
  have probe: "fst (check_database_connection w) =
     Inr (engine_fault w = None \<and> raw_sql_fault w = None)"
    by (simp add: check_database_connection_result)
  have admin: "(\<exists>r. fst (create_admin_user h w) = Inr r) \<and>
     (fst (create_admin_user h w) = Inr None \<longrightarrow>
        tables (snd (create_admin_user h w)) = tables w \<and>
        checked_out (snd (create_admin_user h w)) = checked_out w \<and>
        (\<exists>y. last (logs (snd (create_admin_user h w))) =
               (ERROR, ballot_x @ '' Failed to create admin user: '' @ str y)))"
    by (cases rule: create_admin_user_cases [of h w]) auto
  from raised down refused no_table no_hash no_insert set_up reset prompt probe admin
  show ?thesis
    by blast
qed

text \<open>
  On the store that cannot be reached; with a mapper that refuses the plain string; on
  a database without a users table; with a hashing capability that raises; on a store
  where the bootstrap address is taken; on the sample store, where nothing fails; and
  with the standard input closed.
\<close>

theorem failures_logged_then_raised_or_reported_witness:
  "fst (get_db raising_unit down_world) = Inl (Exception ''boom'') \<and>
   last (logs (snd (get_db raising_unit down_world))) =
     (ERROR, ''Database session error: boom'') \<and>
   fst (init_db down_world) = Inl (OperationalError ''unable to open database file'') \<and>
   fst (drop_db down_world) = Inl (OperationalError ''unable to open database file'') \<and>
   reports (setup_database ''sqlite:///./forecasting.db'') down_world False
     (ballot_x @ '' Database setup failed: unable to open database file'') \<and>
   reports (reset_database_prompt (Inr ''YES'')) down_world False
     (ballot_x @ '' Database reset failed: unable to open database file'') \<and>
   reports check_database_connection down_world False
     (ballot_x @ '' Database connection failed: unable to open database file'') \<and>
   reports (create_admin_user sample_hash) down_world None
     (ballot_x @ '' Failed to create admin user: unable to open database file'') \<and>
   tables (snd (create_admin_user sample_hash down_world)) = sample_store \<and>
   checked_out (snd (create_admin_user sample_hash down_world)) = 0 \<and>
   reports check_database_connection strict_world False
     (ballot_x @ '' Database connection failed: Not an executable object: SELECT 1'') \<and>
   reports (create_admin_user sample_hash) fresh_world None
     (ballot_x @ '' Failed to create admin user: no such table: users'') \<and>
   reports (create_admin_user failing_hash) sample_world None
     (ballot_x @ '' Failed to create admin user: bcrypt: no backends available'') \<and>
   reports (create_admin_user sample_hash) taken_world None
     (ballot_x @ '' Failed to create admin user: UNIQUE constraint failed'') \<and>
   fst (setup_database ''sqlite:///./forecasting.db'' sample_world) = Inr True \<and>
   fst (reset_database_prompt (Inr ''yes'') sample_world) = Inr True \<and>
   fst (reset_database_prompt (Inr ''no'') sample_world) = Inr False \<and>
   fst (check_database_connection sample_world) = Inr True \<and>
   fst (reset_database_prompt (Inl end_of_input) sample_world) = Inl end_of_input"
proof -
  let ?down = "OperationalError ''unable to open database file''"
  let ?strict = "ObjectNotExecutableError ''Not an executable object: SELECT 1''"
  let ?unique = "IntegrityError ''UNIQUE constraint failed''"
  let ?bcrypt = "Exception ''bcrypt: no backends available''"
  let ?url = "''sqlite:///./forecasting.db''"
  have body: "raising_unit (session_count down_world) (snd (SessionLocal down_world)) =
                (Inl (Exception ''boom''), snd (SessionLocal down_world))"
    by (simp add: raising_unit_def raise_def)
  have fault: "engine_fault down_world = Some ?down"
    and store: "tables down_world = sample_store" and out: "checked_out down_world = 0"
    by (simp_all add: down_world_def sample_world_def)
  have yes: "lower ''YES'' = ''yes''" "lower ''yes'' = ''yes''" "lower ''no'' \<noteq> ''yes''"
    by (simp_all add: lower_def lower_char_def)
  have none: "fst (create_admin_user sample_hash down_world) = Inr None"
    by (simp add: create_admin_user_fault [OF fault])
  have strict: "engine_fault strict_world = None" "raw_sql_fault strict_world = Some ?strict"
    by (simp_all add: strict_world_def sample_world_def)
  have fresh: "engine_fault fresh_world = None" "tables fresh_world User = None"
    by (simp_all add: fresh_world_def sample_world_def)
  have sample: "engine_fault sample_world = None" "raw_sql_fault sample_world = None"
    "tables sample_world User \<noteq> None"
    "find is_admin (rows_of (tables sample_world) User) = None"
    "failing_hash ''admin123'' = Inl ?bcrypt"
    by (simp_all add: sample_world_def sample_store_def rows_of_def is_admin_def
        sample_user_def cell_def failing_hash_def)
  have taken: "engine_fault taken_world = None"
    "find is_admin (rows_of (tables taken_world) User) = None"
    "sample_hash ''admin123'' = Inr ''$2b$12$admin123''"
    by (simp_all add: taken_world_def sample_world_def rows_of_def is_admin_def
        squatter_def cell_def sample_hash_def)
  have clash: "insert_row User
      (admin_row ''$2b$12$admin123'' (uuids taken_world (uuid_count taken_world))
         (clock taken_world)) (tables taken_world) = Inl ?unique"
    by (simp add: taken_world_def sample_world_def check_defs schema_defs empty_schema_def
        squatter_def admin_row_def)
  note on_down = failures_logged_then_raised_or_reported
    [of raising_unit down_world "Exception ''boom''" "snd (SessionLocal down_world)"
        ?down ?url "''YES''" sample_hash ?strict "''$2b$12$admin123''" end_of_input]
  note on_strict = failures_logged_then_raised_or_reported
    [of raising_unit strict_world "Exception ''boom''" "snd (SessionLocal down_world)"
        ?down ?url "''yes''" sample_hash ?strict "''$2b$12$admin123''" end_of_input]
  note on_fresh = failures_logged_then_raised_or_reported
    [of raising_unit fresh_world "Exception ''boom''" "snd (SessionLocal down_world)"
        ?down ?url "''yes''" sample_hash ?strict "''$2b$12$admin123''" end_of_input]
  note on_sample = failures_logged_then_raised_or_reported
    [of raising_unit sample_world "Exception ''boom''" "snd (SessionLocal down_world)"
        ?down ?url "''yes''" failing_hash ?bcrypt "''$2b$12$admin123''" end_of_input]
  note on_no = failures_logged_then_raised_or_reported
    [of raising_unit sample_world "Exception ''boom''" "snd (SessionLocal down_world)"
        ?down ?url "''no''" failing_hash ?bcrypt "''$2b$12$admin123''" end_of_input]
  note on_taken = failures_logged_then_raised_or_reported
    [of raising_unit taken_world "Exception ''boom''" "snd (SessionLocal down_world)"
        ?down ?url "''yes''" sample_hash ?unique "''$2b$12$admin123''" end_of_input]
  have 1: "fst (get_db raising_unit down_world) = Inl (Exception ''boom'')"
    "last (logs (snd (get_db raising_unit down_world))) =
       (ERROR, ''Database session error: boom'')"
    "fst (init_db down_world) = Inl ?down" "fst (drop_db down_world) = Inl ?down"
    "reports (setup_database ?url) down_world False
       (ballot_x @ '' Database setup failed: unable to open database file'')"
    "reports (reset_database_prompt (Inr ''YES'')) down_world False
       (ballot_x @ '' Database reset failed: unable to open database file'')"
    "reports check_database_connection down_world False
       (ballot_x @ '' Database connection failed: unable to open database file'')"
    "reports (create_admin_user sample_hash) down_world None
       (ballot_x @ '' Failed to create admin user: unable to open database file'')"
    "tables (snd (create_admin_user sample_hash down_world)) = sample_store"
    "checked_out (snd (create_admin_user sample_hash down_world)) = 0"
    using on_down body fault store out yes none by simp_all
  have 2: "reports check_database_connection strict_world False
       (ballot_x @ '' Database connection failed: Not an executable object: SELECT 1'')"
    using on_strict strict by simp
  have 3: "reports (create_admin_user sample_hash) fresh_world None
       (ballot_x @ '' Failed to create admin user: no such table: users'')"
    using on_fresh fresh by simp
  have 4: "reports (create_admin_user failing_hash) sample_world None
       (ballot_x @ '' Failed to create admin user: bcrypt: no backends available'')"
    "fst (setup_database ?url sample_world) = Inr True"
    "fst (reset_database_prompt (Inr ''yes'') sample_world) = Inr True"
    "fst (check_database_connection sample_world) = Inr True"
    "fst (reset_database_prompt (Inl end_of_input) sample_world) = Inl end_of_input"
    using on_sample sample yes by simp_all
  have 5: "fst (reset_database_prompt (Inr ''no'') sample_world) = Inr False"
    using on_no yes by simp
  have 6: "reports (create_admin_user sample_hash) taken_world None
       (ballot_x @ '' Failed to create admin user: UNIQUE constraint failed'')"
    using on_taken taken clash by simp
  from 1 2 3 4 5 6 show ?thesis
    by blast
qed

text \<open>
  The hashing capability raises, and \<^verbatim>\<open>create_admin_user\<close> returns \<^verbatim>\<open>None\<close>; the
  store cannot be reached, and \<^verbatim>\<open>setup_database\<close> returns \<^verbatim>\<open>False\<close>.
\<close>

theorem create_admin_user_swallows_counterexample:
  "failing_hash ''admin123'' = Inl (Exception ''bcrypt: no backends available'') \<and>
   fst (create_admin_user failing_hash sample_world) = Inr None \<and>
   fst (setup_database ''sqlite:///./forecasting.db'' down_world) = Inr False"
proof -
  have "find is_admin [sample_user] = None"
    by (simp add: is_admin_def sample_user_def cell_def)
  moreover have "tables sample_world User = Some [sample_user]"
    "engine_fault sample_world = None"
    by (simp_all add: sample_world_def sample_store_def)
  ultimately have "fst (create_admin_user failing_hash sample_world) = Inr None"
    using create_admin_user_hash_fails [of sample_world "[sample_user]" failing_hash
        "Exception ''bcrypt: no backends available''"]
    by (simp add: failing_hash_def)
  moreover have "fst (setup_database ''sqlite:///./forecasting.db'' down_world) = Inr False"
    by (simp add: setup_database_def init_db_fault down_world_def io_defs)
  ultimately show ?thesis
    by (simp add: failing_hash_def)
qed


section \<open>The connectivity probe\<close>

text \<open>
  C9. \<^verbatim>\<open>check_database_connection\<close> hands \<^verbatim>\<open>Connection.execute\<close> the plain
  string \<^verbatim>\<open>"SELECT 1"\<close>. It always returns a boolean and never raises, and the
  boolean is \<^verbatim>\<open>True\<close> exactly when a connection could be taken and the plain string
  was accepted. With a mapper that takes executable statements only, the probe of a
  store that can be reached and holds the sample rows takes a connection, gives it back,
  logs the refusal of the string as a failed connection and returns \<^verbatim>\<open>False\<close>.
\<close>

theorem check_database_connection_plain_string:
  "reachable (tables strict_world) \<and> engine_fault strict_world = None \<and>
   raw_sql_fault strict_world =
     Some (ObjectNotExecutableError ''Not an executable object: SELECT 1'') \<and>
   fst (check_database_connection strict_world) = Inr False \<and>
   logs (snd (check_database_connection strict_world)) =
     [(ERROR, ballot_x @ '' Database connection failed: Not an executable object: SELECT 1'')] \<and>
   checked_out (snd (check_database_connection strict_world)) = checked_out strict_world \<and>
   tables (snd (check_database_connection strict_world)) = tables strict_world \<and>
   (\<forall>w. fst (check_database_connection w) =
          Inr (engine_fault w = None \<and> raw_sql_fault w = None))"
proof -
  have "reachable (tables strict_world)"
    using sample_store_reachable by (simp add: strict_world_def sample_world_def)
  moreover have "engine_fault strict_world = None"
    "raw_sql_fault strict_world =
       Some (ObjectNotExecutableError ''Not an executable object: SELECT 1'')"
    "fst (check_database_connection strict_world) = Inr False"
    "logs (snd (check_database_connection strict_world)) =
       [(ERROR, ballot_x @ '' Database connection failed: Not an executable object: SELECT 1'')]"
    "checked_out (snd (check_database_connection strict_world)) = checked_out strict_world"
    "tables (snd (check_database_connection strict_world)) = tables strict_world"
    by (simp_all add: check_database_connection_def with_connection_def engine_connect_def
        connection_close_def execute_string_def io_defs strict_world_def sample_world_def)
  ultimately show ?thesis
    using check_database_connection_result by blast
qed


section \<open>The credentials of the bootstrap administrator\<close>

text \<open>
  C10. Whenever \<^verbatim>\<open>create_admin_user\<close> creates the administrator (no row named
  \<^verbatim>\<open>admin\<close> existed and a user is returned), the row it has stored is named
  \<^verbatim>\<open>admin\<close>, has the address \<^verbatim>\<open>admin@financialanalytics.local\<close>, and its password
  hash is what the hashing capability returned for the plaintext \<^verbatim>\<open>admin123\<close>,
  whatever the store, the capability and the identifiers drawn.
\<close>

theorem create_admin_user_fixed_credentials:
  "find is_admin (rows_of (tables w) User) = None \<Longrightarrow>
   fst (create_admin_user h w) = Inr (Some u) \<Longrightarrow>
     cell u ''username'' = Str ''admin'' \<and>
     cell u ''email'' = Str ''admin@financialanalytics.local'' \<and>
     (\<exists>hashed. h ''admin123'' = Inr hashed \<and> cell u ''hashed_password'' = Str hashed) \<and>
     u \<in> set (rows_of (tables (snd (create_admin_user h w))) User)"
proof -
  assume absent: "find is_admin (rows_of (tables w) User) = None"
    and ret: "fst (create_admin_user h w) = Inr (Some u)"
  show ?thesis
  proof (cases rule: create_admin_user_cases [of h w])
    case (failed x)
    with ret show ?thesis by simp
  next
    case (refused x hashed)
    with ret show ?thesis by simp
  next
    case (existing u')
    with absent show ?thesis by simp
  next
    case (created hashed T)
    let ?r = "admin_row hashed (uuids w (uuid_count w)) (clock w)"
    from created ret have u: "u = ?r" by simp
    from created(4) have "rows_of T User = rows_of (tables w) User @ [?r]"
      by (simp add: insert_row_rows)
    moreover have "cell ?r ''username'' = Str ''admin''"
      "cell ?r ''email'' = Str ''admin@financialanalytics.local''"
      "cell ?r ''hashed_password'' = Str hashed"
      by (simp_all add: admin_row_def cell_def)
    ultimately show ?thesis
      using created u by simp
  qed
qed

text \<open>On the sample world.\<close>

theorem create_admin_user_fixed_credentials_witness:
  "find is_admin (rows_of (tables sample_world) User) = None \<and>
   fst (create_admin_user sample_hash sample_world) = Inr (Some sample_admin) \<and>
   cell sample_admin ''username'' = Str ''admin'' \<and>
   cell sample_admin ''email'' = Str ''admin@financialanalytics.local'' \<and>
   sample_hash ''admin123'' = Inr ''$2b$12$admin123'' \<and>
   cell sample_admin ''hashed_password'' = Str ''$2b$12$admin123'' \<and>
   sample_admin \<in> set (rows_of (tables (snd (create_admin_user sample_hash sample_world))) User)"
proof -
  have absent: "find is_admin (rows_of (tables sample_world) User) = None"
    by (simp add: sample_world_def sample_store_def rows_of_def is_admin_def sample_user_def
        cell_def)
  have first: "fst (create_admin_user sample_hash sample_world) = Inr (Some sample_admin)"
    by (simp add: sample_world_created)
  have "sample_hash ''admin123'' = Inr ''$2b$12$admin123''"
    by (simp add: sample_hash_def)
  with create_admin_user_fixed_credentials [OF absent first] absent first show ?thesis
    by auto
qed

end
